theory Spec2Isabelle
  imports Main "HOL-Library.Word"
begin

section \<open>The appliance switchboard firmware (appliances\_control\_hardware/src/main.cpp)\<close>

text \<open>
  The firmware keeps nine digital outputs in step with JSON commands that arrive over
  MQTT. Its functions \<open>setupPins\<close>, \<open>publish_state\<close>, \<open>callback\<close> and \<open>reconnect\<close>
  are embedded below, statement by statement. Everything they touch outside the file
  is explicit:
  \<^item> the output pins are a store from pin number to level (\<open>gpio\<close>), written by
    \<open>digitalWrite\<close> and read back by \<open>digitalRead\<close>;
  \<^item> every call to the serial console, to the MQTT client and to \<open>delay\<close> is
    appended, in program order, to a trace of events;
  \<^item> the global table \<open>pinMap\<close> is a parameter of every function, so that the
    theorems hold for any table and the table of the source is one instance;
  \<^item> the behaviour of the libraries that the source does not determine (what the
    decoder returns for a text, how many members the 256-byte document pool holds,
    what is left in the output buffer when the text does not fit, what the decoder
    and the MQTT client write into the buffer of the incoming message) is a
    parameter, the record \<open>libraries\<close>;
  \<^item> a write past the end of the caller's buffer and a read through a null pointer
    are results of their own (\<open>fault\<close>), not values.
\<close>

subsection \<open>C strings\<close>

text \<open>
  A \<open>string\<close> holds the characters before the terminator. \<open>tolower\<close> is the one of the
  C locale: it changes the letters A to Z only.
\<close>

definition NUL :: char where
  "NUL = CHR 0x00"

definition tolower :: "char \<Rightarrow> char" where
  "tolower c =
     (case map_of (zip ''ABCDEFGHIJKLMNOPQRSTUVWXYZ'' ''abcdefghijklmnopqrstuvwxyz'') c of
        Some l \<Rightarrow> l
      | None \<Rightarrow> c)"

text \<open>
  \<open>strcasecmp\<close> returns the difference of the first two characters that differ after
  \<open>tolower\<close>, the terminator counting as 0; the firmware only tests the result
  against 0.
\<close>

fun strcasecmp :: "string \<Rightarrow> string \<Rightarrow> int" where
  "strcasecmp [] [] = 0"
| "strcasecmp [] (y # ys) = - of_char (tolower y)"
| "strcasecmp (x # xs) [] = of_char (tolower x)"
| "strcasecmp (x # xs) (y # ys) =
     (if tolower x = tolower y then strcasecmp xs ys
      else of_char (tolower x) - of_char (tolower y))"

text \<open>The text a \<open>char*\<close> points to: the bytes before the first NUL.\<close>

definition c_str :: "string \<Rightarrow> string" where
  "c_str buf = takeWhile (\<lambda>c. c \<noteq> NUL) buf"

subsection \<open>The board: pins, link and the trace of external calls\<close>

datatype level = LOW | HIGH

datatype pin_mode = INPUT | OUTPUT

datatype event =
    Serial_write string
  | Serial_write_int int
  | MQTT_connect string string string
  | MQTT_subscribe string
  | MQTT_publish string string bool
  | Delay nat

record device =
  pin_modes :: "8 word \<Rightarrow> pin_mode"
  gpio :: "8 word \<Rightarrow> level"
  connected :: bool
  attempts :: nat
  trace :: "event list"

definition pinMode :: "8 word \<Rightarrow> pin_mode \<Rightarrow> device \<Rightarrow> device" where
  "pinMode p m st = st\<lparr>pin_modes := (pin_modes st)(p := m)\<rparr>"

definition digitalWrite :: "8 word \<Rightarrow> level \<Rightarrow> device \<Rightarrow> device" where
  "digitalWrite p v st = st\<lparr>gpio := (gpio st)(p := v)\<rparr>"

text \<open>The pins are outputs nothing else drives: reading one gives the level last written.\<close>

definition digitalRead :: "device \<Rightarrow> 8 word \<Rightarrow> level" where
  "digitalRead st p = gpio st p"

definition emit :: "event \<Rightarrow> device \<Rightarrow> device" where
  "emit e st = st\<lparr>trace := trace st @ [e]\<rparr>"

definition Serial_print :: "string \<Rightarrow> device \<Rightarrow> device" where
  "Serial_print s st = emit (Serial_write s) st"

definition Serial_println :: "string \<Rightarrow> device \<Rightarrow> device" where
  "Serial_println s st = emit (Serial_write (s @ [CHR 0x0D, CHR 0x0A])) st"

text \<open>The calls to \<open>client.publish\<close> among the events, in order.\<close>

fun is_publish :: "event \<Rightarrow> bool" where
  "is_publish (MQTT_publish t p r) = True"
| "is_publish e = False"

definition published :: "device \<Rightarrow> event list" where
  "published st = filter is_publish (trace st)"

subsection \<open>Configuration and the channel table\<close>

definition mqtt_user :: string where
  "mqtt_user = ''appliances''"

definition mqtt_pass :: string where
  "mqtt_pass = ''A1p2l3i4a5n6c7e''"

definition control_topic :: string where
  "control_topic = ''appliances/room_switchboard/control''"

definition state_topic :: string where
  "state_topic = ''appliances/room_switchboard/state''"

record PinMap =
  name :: string
  pin :: "8 word"

text \<open>
  The pin numbers \<open>D0\<close> to \<open>D8\<close> come from the board's header, which is not part of
  the repository; the values below are those of the NodeMCU and D1 mini variants of the
  ESP8266 core. The theorems take the table as a parameter and ask, where it matters,
  only that its pins are distinct.
\<close>

definition pinMap :: "PinMap list" where
  "pinMap =
     [\<lparr>name = ''d0'', pin = 16\<rparr>, \<lparr>name = ''d1'', pin = 5\<rparr>, \<lparr>name = ''d2'', pin = 4\<rparr>,
      \<lparr>name = ''d3'', pin = 0\<rparr>, \<lparr>name = ''d4'', pin = 2\<rparr>, \<lparr>name = ''d5'', pin = 14\<rparr>,
      \<lparr>name = ''d6'', pin = 12\<rparr>, \<lparr>name = ''d7'', pin = 13\<rparr>, \<lparr>name = ''d8'', pin = 15\<rparr>]"

subsection \<open>setupPins\<close>

definition setupPins :: "PinMap list \<Rightarrow> device \<Rightarrow> device" where
  "setupPins pm st =
     fold (\<lambda>e s. digitalWrite (pin e) LOW (pinMode (pin e) OUTPUT s)) pm st"

subsection \<open>The JSON library\<close>

text \<open>
  ArduinoJson is not part of the repository. What the firmware relies on is modelled as
  the library documents it; what the source leaves open is a field of \<open>libraries\<close>.

  A decoded document is a JSON value. \<open>as_JsonObject\<close> is \<open>doc.as<JsonObject>()\<close>:
  the members of an object in document order, and no member at all for any other value.
  \<open>as_c_str\<close> is \<open>as<const char*>()\<close>: the text of a string, and the null pointer
  (\<open>None\<close>) for a value that is not a string. Numbers are integers here; a fraction
  would be one more value that is not a string.
\<close>

datatype JsonVariant =
    JNull
  | JBool bool
  | JInteger int
  | JString string
  | JArray "JsonVariant list"
  | JObject "(string \<times> JsonVariant) list"

fun as_JsonObject :: "JsonVariant \<Rightarrow> (string \<times> JsonVariant) list" where
  "as_JsonObject (JObject ms) = ms"
| "as_JsonObject v = []"

fun as_c_str :: "JsonVariant \<Rightarrow> string option" where
  "as_c_str (JString s) = Some s"
| "as_c_str v = None"

datatype DeserializationError = EmptyInput | IncompleteInput | InvalidInput | NoMemory | TooDeep

fun error_c_str :: "DeserializationError \<Rightarrow> string" where
  "error_c_str EmptyInput = ''EmptyInput''"
| "error_c_str IncompleteInput = ''IncompleteInput''"
| "error_c_str InvalidInput = ''InvalidInput''"
| "error_c_str NoMemory = ''NoMemory''"
| "error_c_str TooDeep = ''TooDeep''"

text \<open>
  The document \<open>publish_state\<close> builds holds string values only. It starts as the null
  document (\<open>None\<close>); the first assignment \<open>doc[key] = text\<close> turns it into an object.
  An assignment replaces the value of a member with that key, or else adds a member at
  the end while the pool has a free slot, or else does nothing.
\<close>

type_synonym JsonDocument = "(string \<times> string) list option"

text \<open>
  The handler passes its writable buffer to \<open>deserializeJson\<close>, and it publishes while
  the buffer is still its caller's: \<open>decode_writes\<close> is the buffer as the decoder leaves
  it, \<open>publish_writes\<close> the buffer as \<open>client.publish\<close> of a payload leaves it. A decoder
  that copies its input and a client with a transmit buffer of its own leave it as it
  is; ArduinoJson 6 decodes a writable buffer in place, and PubSubClient builds the
  outgoing packet in the buffer the message arrived in.
\<close>

record libraries =
  deserializeJson :: "string \<Rightarrow> DeserializationError + JsonVariant"
  slots :: nat
  overflow :: "JsonDocument \<Rightarrow> nat \<Rightarrow> string"
  decode_writes :: "string \<Rightarrow> string"
  publish_writes :: "string \<Rightarrow> string \<Rightarrow> string"

definition members_of :: "JsonDocument \<Rightarrow> (string \<times> string) list" where
  "members_of doc = (case doc of None \<Rightarrow> [] | Some ms \<Rightarrow> ms)"

definition doc_assign :: "nat \<Rightarrow> JsonDocument \<Rightarrow> string \<Rightarrow> string \<Rightarrow> JsonDocument" where
  "doc_assign cap doc k v =
     (let ms = members_of doc in
      if k \<in> fst ` set ms then Some (map (\<lambda>(k', v'). if k' = k then (k', v) else (k', v')) ms)
      else if length ms < cap then Some (ms @ [(k, v)])
      else Some ms)"

text \<open>The text of a document: no white space, members in order, strings escaped.\<close>

definition escape_char :: "char \<Rightarrow> string" where
  "escape_char c =
     (case map_of [(CHR 0x22, CHR 0x22), (CHR 0x5C, CHR 0x5C), (CHR 0x08, CHR ''b''),
                   (CHR 0x0C, CHR ''f''), (CHR 0x0A, CHR ''n''), (CHR 0x0D, CHR ''r''),
                   (CHR 0x09, CHR ''t'')] c of
        Some e \<Rightarrow> [CHR 0x5C, e]
      | None \<Rightarrow> [c])"

definition quoted :: "string \<Rightarrow> string" where
  "quoted s = CHR 0x22 # concat (map escape_char s) @ [CHR 0x22]"

fun render_members :: "(string \<times> string) list \<Rightarrow> string" where
  "render_members [] = []"
| "render_members [(k, v)] = quoted k @ '':'' @ quoted v"
| "render_members ((k, v) # m # ms) = quoted k @ '':'' @ quoted v @ '','' @ render_members (m # ms)"

definition render :: "JsonDocument \<Rightarrow> string" where
  "render doc = (case doc of None \<Rightarrow> ''null'' | Some ms \<Rightarrow> ''{'' @ render_members ms @ ''}'')"

text \<open>
  \<open>serializeJson(doc, buffer, size)\<close>, read back as the C string the buffer then holds.
  A text shorter than the buffer is written whole and terminated. Otherwise what the
  buffer holds depends on the library's version and on the memory behind the buffer:
  the field \<open>overflow\<close> stands for it.
\<close>

definition serializeJson :: "libraries \<Rightarrow> JsonDocument \<Rightarrow> nat \<Rightarrow> string" where
  "serializeJson lib doc bufsize =
     (if length (render doc) < bufsize then render doc else overflow lib doc bufsize)"

subsection \<open>publish\_state\<close>

definition state_token :: "level \<Rightarrow> string" where
  "state_token l = (if l = HIGH then ''on'' else ''off'')"

definition build_doc :: "libraries \<Rightarrow> PinMap list \<Rightarrow> device \<Rightarrow> JsonDocument" where
  "build_doc lib pm st =
     fold (\<lambda>e doc. doc_assign (slots lib) doc (name e) (state_token (digitalRead st (pin e))))
       pm None"

definition publish_state :: "libraries \<Rightarrow> PinMap list \<Rightarrow> device \<Rightarrow> device" where
  "publish_state lib pm st =
     (let payload = serializeJson lib (build_doc lib pm st) 256 in
      Serial_println payload
        (Serial_print ''Published state: ''
          (emit (MQTT_publish state_topic payload True) st)))"

subsection \<open>callback\<close>

datatype fault = Out_of_bounds_write | Null_pointer_read

text \<open>
  The inner loop of \<open>callback\<close>: every table entry whose name equals the key, letters
  compared without case, is driven HIGH when the value equals \<open>on\<close> in the same sense
  and LOW otherwise. The value is only looked at for a matching entry; there a null
  pointer is read by \<open>strcasecmp\<close>.
\<close>

fun set_matching :: "PinMap list \<Rightarrow> string \<Rightarrow> string option \<Rightarrow> device \<Rightarrow> fault + device" where
  "set_matching [] pinLabel val st = Inr st"
| "set_matching (e # pm) pinLabel val st =
     (if strcasecmp (name e) pinLabel = 0 then
        (case val of
           None \<Rightarrow> Inl Null_pointer_read
         | Some v \<Rightarrow>
             if strcasecmp v ''on'' = 0 then
               set_matching pm pinLabel val
                 (Serial_print (''Set '' @ pinLabel @ '' HIGH'' @ [CHR 0x0A])
                   (digitalWrite (pin e) HIGH st))
             else
               set_matching pm pinLabel val
                 (Serial_print (''Set '' @ pinLabel @ '' LOW'' @ [CHR 0x0A])
                   (digitalWrite (pin e) LOW st)))
      else set_matching pm pinLabel val st)"

text \<open>The outer loop: the pairs of the decoded object, in document order.\<close>

fun apply_pairs :: "PinMap list \<Rightarrow> (string \<times> JsonVariant) list \<Rightarrow> device \<Rightarrow> fault + device" where
  "apply_pairs pm [] st = Inr st"
| "apply_pairs pm ((k, v) # kvs) st =
     (case set_matching pm k (as_c_str v) st of
        Inl f \<Rightarrow> Inl f
      | Inr st' \<Rightarrow> apply_pairs pm kvs st')"

text \<open>
  \<open>payload\<close> is the caller's buffer from the first byte of the message on, \<open>len\<close> the
  length of the message. The result holds the buffer as it is when the handler
  returns: terminated by the handler, then written by the decoder and, where the
  handler publishes, by the client.
\<close>

definition callback ::
  "libraries \<Rightarrow> PinMap list \<Rightarrow> string \<Rightarrow> string \<Rightarrow> nat \<Rightarrow> device \<Rightarrow> fault + (string \<times> device)" where
  "callback lib pm topic payload len st =
     (if length payload \<le> len then Inl Out_of_bounds_write
      else
        let payload' = payload[len := NUL];
            st1 = Serial_println (c_str payload')
                    (Serial_print '']: ''
                      (Serial_print topic
                        (Serial_print ''Message arrived ['' st)))
        in case deserializeJson lib (c_str payload') of
             Inl error \<Rightarrow>
               Inr (decode_writes lib payload',
                    Serial_println (error_c_str error)
                      (Serial_print ''deserializeJson() failed: '' st1))
           | Inr doc \<Rightarrow>
               (case apply_pairs pm (as_JsonObject doc) st1 of
                  Inl f \<Rightarrow> Inl f
                | Inr st2 \<Rightarrow>
                    Inr (publish_writes lib (serializeJson lib (build_doc lib pm st2) 256)
                           (decode_writes lib payload'),
                         publish_state lib pm st2)))"

subsection \<open>reconnect\<close>

text \<open>
  The broker is the environment: \<open>broker i\<close> is the outcome of the \<open>i\<close>-th call of
  \<open>client.connect\<close> since boot, with the code \<open>client.state()\<close> reports after a
  refusal. \<open>client.connected()\<close> is the flag \<open>connected\<close>, set by an accepted attempt.
  The loop has no bound: where the broker never accepts, \<open>reconnect\<close> is \<open>None\<close>.
\<close>

datatype attempt = Accepted | Refused int

text \<open>The call of \<open>client.connect\<close> and the two branches that follow it.\<close>

definition try_connect :: "device \<Rightarrow> device" where
  "try_connect st =
     (emit (MQTT_connect ''ESP8266ApplianceClient'' mqtt_user mqtt_pass)
        (Serial_print ''Attempting MQTT connection...'' st))
     \<lparr>attempts := attempts st + 1\<rparr>"

definition accepted_step :: "libraries \<Rightarrow> PinMap list \<Rightarrow> device \<Rightarrow> device" where
  "accepted_step lib pm st =
     publish_state lib pm
       (emit (MQTT_subscribe control_topic)
         (Serial_println ''connected'' ((try_connect st)\<lparr>connected := True\<rparr>)))"

definition refused_step :: "int \<Rightarrow> device \<Rightarrow> device" where
  "refused_step rc st =
     emit (Delay 5000)
       (Serial_println ''. Try again in 5 seconds''
         (emit (Serial_write_int rc)
           (Serial_print ''failed, rc='' (try_connect st))))"

partial_function (option) reconnect ::
  "(nat \<Rightarrow> attempt) \<Rightarrow> libraries \<Rightarrow> PinMap list \<Rightarrow> device \<Rightarrow> device option" where
  "reconnect broker lib pm st =
     (if connected st then Some st
      else
        (case broker (attempts st) of
           Accepted \<Rightarrow> reconnect broker lib pm (accepted_step lib pm st)
         | Refused rc \<Rightarrow> reconnect broker lib pm (refused_step rc st)))"

subsection \<open>What the theorems speak about\<close>

text \<open>
  The snapshot of a table in a state: one member per entry, in table order, the token
  of the level read from the entry's pin.
\<close>

definition snapshot :: "PinMap list \<Rightarrow> device \<Rightarrow> (string \<times> string) list" where
  "snapshot pm st = map (\<lambda>e. (name e, state_token (digitalRead st (pin e)))) pm"

text \<open>The entries a key selects, and the level a value token asks for.\<close>

definition matching :: "PinMap list \<Rightarrow> string \<Rightarrow> PinMap list" where
  "matching pm k = filter (\<lambda>e. strcasecmp (name e) k = 0) pm"

definition requested :: "string \<Rightarrow> level" where
  "requested v = (if strcasecmp v ''on'' = 0 then HIGH else LOW)"

text \<open>
  A command is applicable when every pair whose key selects an entry carries a string.
\<close>

definition applicable :: "PinMap list \<Rightarrow> (string \<times> JsonVariant) list \<Rightarrow> bool" where
  "applicable pm kvs = list_all (\<lambda>(k, v). matching pm k = [] \<or> as_c_str v \<noteq> None) kvs"

text \<open>
  The level a command leaves on each pin it drives: the one requested by the last
  pair whose key selects an entry with that pin.
\<close>

fun writes :: "PinMap list \<Rightarrow> (string \<times> JsonVariant) list \<Rightarrow> 8 word \<Rightarrow> level option" where
  "writes pm [] q = None"
| "writes pm ((k, v) # kvs) q =
     (case writes pm kvs q of
        Some l \<Rightarrow> Some l
      | None \<Rightarrow>
          (case as_c_str v of
             Some t \<Rightarrow> if q \<in> pin ` set (matching pm k) then Some (requested t) else None
           | None \<Rightarrow> None))"

definition override :: "(8 word \<Rightarrow> level) \<Rightarrow> (8 word \<Rightarrow> level option) \<Rightarrow> 8 word \<Rightarrow> level" where
  "override g w q = (case w q of Some l \<Rightarrow> l | None \<Rightarrow> g q)"

fun is_serial :: "event \<Rightarrow> bool" where
  "is_serial (Serial_write s) = True"
| "is_serial (Serial_write_int n) = True"
| "is_serial e = False"

text \<open>
  What the library calls of the handler leave of the terminated buffer, given the
  state the handler ends in: the decoder's writes, and after a successful decode the
  client's writes for the snapshot it publishes.
\<close>

definition left_in_buffer :: "libraries \<Rightarrow> PinMap list \<Rightarrow> string \<Rightarrow> nat \<Rightarrow> device \<Rightarrow> string" where
  "left_in_buffer lib pm payload len st' =
     (case deserializeJson lib (c_str (payload[len := NUL])) of
        Inl error \<Rightarrow> decode_writes lib (payload[len := NUL])
      | Inr doc \<Rightarrow>
          publish_writes lib (serializeJson lib (build_doc lib pm st') 256)
            (decode_writes lib (payload[len := NUL])))"

text \<open>The calls to the MQTT client and to \<open>delay\<close> among the events, in order.\<close>

definition network :: "device \<Rightarrow> event list" where
  "network st = filter (\<lambda>e. \<not> is_serial e) (trace st)"

subsection \<open>Instances for the closed examples\<close>

text \<open>
  The closed examples below need one behaviour of the libraries to run on. Its decoder
  is a stand-in that reads what the examples send: a scalar, or an object whose values
  are scalars, with no escape in a string. Its pool holds 16 members (256 bytes in slots
  of 16, as on the ESP8266), and a text that does not fit is cut to the buffer's size
  less the terminator. In \<open>esp8266_lib\<close> neither library writes to the buffer of the
  incoming message. \<open>inplace_lib\<close> differs in the decoder's writes only: its decoder
  works in place, as ArduinoJson 6 does on a writable input: each string it reads is
  moved, with a terminator, to the front of the buffer, one after the other.
\<close>

definition is_space :: "char \<Rightarrow> bool" where
  "is_space c = (c \<in> set [CHR '' '', CHR 0x09, CHR 0x0A, CHR 0x0D])"

definition skip_ws :: "string \<Rightarrow> string" where
  "skip_ws s = dropWhile is_space s"

definition scan_string :: "string \<Rightarrow> DeserializationError + (string \<times> string)" where
  "scan_string s =
     (let body = takeWhile (\<lambda>c. c \<noteq> CHR 0x22) s;
          rest = dropWhile (\<lambda>c. c \<noteq> CHR 0x22) s
      in if rest = [] then Inl IncompleteInput
         else if CHR 0x5C \<in> set body then Inl InvalidInput
         else Inr (body, tl rest))"

definition digit_of :: "char \<Rightarrow> nat option" where
  "digit_of c = map_of (zip ''0123456789'' [0, 1, 2, 3, 4, 5, 6, 7, 8, 9]) c"

fun number_of :: "nat \<Rightarrow> string \<Rightarrow> nat" where
  "number_of acc [] = acc"
| "number_of acc (c # cs) = number_of (10 * acc + (case digit_of c of Some d \<Rightarrow> d | None \<Rightarrow> 0)) cs"

definition scan_value :: "string \<Rightarrow> DeserializationError + (JsonVariant \<times> string)" where
  "scan_value s =
     (case s of
        [] \<Rightarrow> Inl IncompleteInput
      | c # cs \<Rightarrow>
          if c = CHR 0x22 then
            (case scan_string cs of Inl e \<Rightarrow> Inl e | Inr (t, r) \<Rightarrow> Inr (JString t, r))
          else if take 4 s = ''true'' then Inr (JBool True, drop 4 s)
          else if take 5 s = ''false'' then Inr (JBool False, drop 5 s)
          else if take 4 s = ''null'' then Inr (JNull, drop 4 s)
          else if digit_of c \<noteq> None then
            Inr (JInteger (int (number_of 0 (takeWhile (\<lambda>d. digit_of d \<noteq> None) s))),
                 dropWhile (\<lambda>d. digit_of d \<noteq> None) s)
          else Inl InvalidInput)"

fun scan_members ::
  "string \<Rightarrow> string \<Rightarrow> (string \<times> JsonVariant) list \<Rightarrow>
     DeserializationError + (string \<times> JsonVariant) list" where
  "scan_members [] s acc = Inl IncompleteInput"
| "scan_members (f # fuel) s acc =
     (case skip_ws s of
        [] \<Rightarrow> Inl IncompleteInput
      | c # cs \<Rightarrow>
          if c \<noteq> CHR 0x22 then Inl InvalidInput
          else
            (case scan_string cs of
               Inl e \<Rightarrow> Inl e
             | Inr (k, r1) \<Rightarrow>
                 (case skip_ws r1 of
                    [] \<Rightarrow> Inl IncompleteInput
                  | c1 # r2 \<Rightarrow>
                      if c1 \<noteq> CHR '':'' then Inl InvalidInput
                      else
                        (case scan_value (skip_ws r2) of
                           Inl e \<Rightarrow> Inl e
                         | Inr (v, r3) \<Rightarrow>
                             (case skip_ws r3 of
                                [] \<Rightarrow> Inl IncompleteInput
                              | c2 # r4 \<Rightarrow>
                                  if c2 = CHR '','' then scan_members fuel r4 (acc @ [(k, v)])
                                  else if c2 = CHR ''}'' then Inr (acc @ [(k, v)])
                                  else Inl InvalidInput)))))"

definition flat_decoder :: "string \<Rightarrow> DeserializationError + JsonVariant" where
  "flat_decoder s =
     (case skip_ws s of
        [] \<Rightarrow> Inl EmptyInput
      | c # cs \<Rightarrow>
          if c = CHR ''{'' then
            (case skip_ws cs of
               [] \<Rightarrow> Inl IncompleteInput
             | d # ds \<Rightarrow>
                 if d = CHR ''}'' then Inr (JObject [])
                 else
                   (case scan_members cs cs [] of
                      Inl e \<Rightarrow> Inl e
                    | Inr ms \<Rightarrow> Inr (JObject ms)))
          else
            (case scan_value (c # cs) of Inl e \<Rightarrow> Inl e | Inr (v, r) \<Rightarrow> Inr v))"

definition esp8266_lib :: libraries where
  "esp8266_lib = \<lparr>deserializeJson = flat_decoder, slots = 16,
                   overflow = (\<lambda>doc n. take (n - 1) (render doc)),
                   decode_writes = (\<lambda>buf. buf), publish_writes = (\<lambda>p buf. buf)\<rparr>"

fun moved_strings :: "bool \<Rightarrow> string \<Rightarrow> string" where
  "moved_strings inside [] = []"
| "moved_strings inside (c # cs) =
     (if c = NUL then []
      else if c = CHR 0x22 then
        (if inside then NUL # moved_strings False cs else moved_strings True cs)
      else if inside then c # moved_strings inside cs
      else moved_strings inside cs)"

definition decode_in_place :: "string \<Rightarrow> string" where
  "decode_in_place buf = moved_strings False buf @ drop (length (moved_strings False buf)) buf"

definition inplace_lib :: libraries where
  "inplace_lib = esp8266_lib\<lparr>decode_writes := decode_in_place\<rparr>"

text \<open>
  Two states of the board: before \<open>setup\<close>, with every pin (here) HIGH and no link;
  and connected after one attempt, with every output LOW.
\<close>

definition all_high :: device where
  "all_high = \<lparr>pin_modes = (\<lambda>p. INPUT), gpio = (\<lambda>p. HIGH), connected = False,
                attempts = 0, trace = []\<rparr>"

definition all_low :: device where
  "all_low = \<lparr>pin_modes = (\<lambda>p. OUTPUT), gpio = (\<lambda>p. LOW), connected = True,
               attempts = 1, trace = []\<rparr>"

text \<open>A broker that refuses the first two attempts and accepts from the third on.\<close>

definition third_time_lucky :: "nat \<Rightarrow> attempt" where
  "third_time_lucky i = (if i < 2 then Refused (- 2) else Accepted)"

definition long_name_table :: "PinMap list" where
  "long_name_table = [\<lparr>name = replicate 250 (CHR ''x''), pin = 5\<rparr>]"

definition three_long_names :: "PinMap list" where
  "three_long_names =
     [\<lparr>name = replicate 100 (CHR ''a''), pin = 5\<rparr>,
      \<lparr>name = replicate 100 (CHR ''b''), pin = 4\<rparr>,
      \<lparr>name = replicate 100 (CHR ''c''), pin = 0\<rparr>]"


section \<open>Properties\<close>

subsection \<open>Facts about the primitives\<close>

lemma gpio_pinMode [simp]: "gpio (pinMode p m st) = gpio st"
  by (simp add: pinMode_def)

lemma gpio_digitalWrite [simp]: "gpio (digitalWrite p v st) = (gpio st)(p := v)"
  by (simp add: digitalWrite_def)

lemma setupPins_Cons:
  "setupPins (e # pm) st = setupPins pm (digitalWrite (pin e) LOW (pinMode (pin e) OUTPUT st))"
  by (simp add: setupPins_def)

lemma setupPins_gpio:
  "gpio (setupPins pm st) q = (if q \<in> pin ` set pm then LOW else gpio st q)"
proof (induction pm arbitrary: st)
  case Nil
  show ?case by (simp add: setupPins_def)
next
  case (Cons e pm)
  show ?case by (simp add: setupPins_Cons Cons.IH)
qed

lemma gpio_emit [simp]: "gpio (emit e st) = gpio st"
  by (simp add: emit_def)

lemma trace_emit [simp]: "trace (emit e st) = trace st @ [e]"
  by (simp add: emit_def)

lemma connected_emit [simp]: "connected (emit e st) = connected st"
  by (simp add: emit_def)

lemma attempts_emit [simp]: "attempts (emit e st) = attempts st"
  by (simp add: emit_def)

lemma trace_digitalWrite [simp]: "trace (digitalWrite p v st) = trace st"
  by (simp add: digitalWrite_def)

lemma connected_digitalWrite [simp]: "connected (digitalWrite p v st) = connected st"
  by (simp add: digitalWrite_def)

lemma attempts_digitalWrite [simp]: "attempts (digitalWrite p v st) = attempts st"
  by (simp add: digitalWrite_def)

lemma published_emit:
  "published (emit e st) = published st @ (if is_publish e then [e] else [])"
  by (simp add: published_def)

lemma published_digitalWrite [simp]: "published (digitalWrite p v st) = published st"
  by (simp add: published_def)

lemma published_Serial [simp]:
  "published (Serial_print s st) = published st"
  "published (Serial_println s st) = published st"
  by (simp_all add: Serial_print_def Serial_println_def published_emit)

lemma gpio_Serial [simp]:
  "gpio (Serial_print s st) = gpio st"
  "gpio (Serial_println s st) = gpio st"
  by (simp_all add: Serial_print_def Serial_println_def)

lemma connected_Serial [simp]:
  "connected (Serial_print s st) = connected st"
  "connected (Serial_println s st) = connected st"
  by (simp_all add: Serial_print_def Serial_println_def)

lemma attempts_Serial [simp]:
  "attempts (Serial_print s st) = attempts st"
  "attempts (Serial_println s st) = attempts st"
  by (simp_all add: Serial_print_def Serial_println_def)

lemma trace_Serial [simp]:
  "trace (Serial_print s st) = trace st @ [Serial_write s]"
  "trace (Serial_println s st) = trace st @ [Serial_write (s @ [CHR 0x0D, CHR 0x0A])]"
  by (simp_all add: Serial_print_def Serial_println_def)

subsection \<open>publish\_state\<close>

lemma build_doc_cong: "gpio st = gpio st' \<Longrightarrow> build_doc lib pm st = build_doc lib pm st'"
  by (simp add: build_doc_def digitalRead_def)

lemma snapshot_cong: "gpio st = gpio st' \<Longrightarrow> snapshot pm st = snapshot pm st'"
  by (simp add: snapshot_def digitalRead_def)

lemma gpio_publish_state [simp]: "gpio (publish_state lib pm st) = gpio st"
  by (simp add: publish_state_def Let_def)

lemma connected_publish_state [simp]: "connected (publish_state lib pm st) = connected st"
  by (simp add: publish_state_def Let_def)

lemma attempts_publish_state [simp]: "attempts (publish_state lib pm st) = attempts st"
  by (simp add: publish_state_def Let_def)

lemma build_doc_publish_state [simp]:
  "build_doc lib pm (publish_state lib pm st) = build_doc lib pm st"
  by (rule build_doc_cong) simp

lemma published_publish_state:
  "published (publish_state lib pm st) =
     published st @ [MQTT_publish state_topic (serializeJson lib (build_doc lib pm st) 256) True]"
  by (simp add: publish_state_def Let_def published_emit)

lemma trace_publish_state:
  "trace (publish_state lib pm st) =
     trace st @ [MQTT_publish state_topic (serializeJson lib (build_doc lib pm st) 256) True,
                 Serial_write ''Published state: '',
                 Serial_write (serializeJson lib (build_doc lib pm st) 256 @ [CHR 0x0D, CHR 0x0A])]"
  by (simp add: publish_state_def Let_def)

lemma fold_doc_assign:
  "distinct (map fst ms @ map name pm) \<Longrightarrow>
   fold (\<lambda>e doc. doc_assign cap doc (name e) (f e)) pm (Some ms)
     = Some (ms @ take (cap - length ms) (map (\<lambda>e. (name e, f e)) pm))"
proof (induction pm arbitrary: ms)
  case Nil
  then show ?case by simp
next
  case (Cons e pm)
  show ?case
  proof (cases "length ms < cap")
    case True
    have "doc_assign cap (Some ms) (name e) (f e) = Some (ms @ [(name e, f e)])"
      using Cons.prems True by (auto simp: doc_assign_def members_of_def Let_def)
    moreover have "fold (\<lambda>e doc. doc_assign cap doc (name e) (f e)) pm (Some (ms @ [(name e, f e)]))
       = Some ((ms @ [(name e, f e)]) @ take (cap - length (ms @ [(name e, f e)])) (map (\<lambda>e. (name e, f e)) pm))"
      using Cons.prems by (intro Cons.IH) auto
    moreover have "cap - length ms = Suc (cap - Suc (length ms))"
      using True by simp
    ultimately show ?thesis by simp
  next
    case False
    have "doc_assign cap (Some ms) (name e) (f e) = Some ms"
      using Cons.prems False by (auto simp: doc_assign_def members_of_def Let_def)
    moreover have "fold (\<lambda>e doc. doc_assign cap doc (name e) (f e)) pm (Some ms)
       = Some (ms @ take (cap - length ms) (map (\<lambda>e. (name e, f e)) pm))"
      using Cons.prems by (intro Cons.IH) auto
    ultimately show ?thesis using False by simp
  qed
qed

lemma build_doc_distinct:
  assumes "distinct (map name pm)"
  shows "build_doc lib pm st = (if pm = [] then None else Some (take (slots lib) (snapshot pm st)))"
proof (cases pm)
  case Nil
  then show ?thesis by (simp add: build_doc_def)
next
  case (Cons e pm')
  let ?f = "\<lambda>e. state_token (digitalRead st (pin e))"
  show ?thesis
  proof (cases "slots lib")
    case 0
    have 1: "doc_assign (slots lib) None (name e) (?f e) = Some []"
      using 0 by (simp add: doc_assign_def members_of_def)
    have "fold (\<lambda>e doc. doc_assign (slots lib) doc (name e) (?f e)) pm' (Some [])
        = Some ([] @ take (slots lib - length ([] :: (string \<times> string) list)) (map (\<lambda>e. (name e, ?f e)) pm'))"
      using assms Cons by (intro fold_doc_assign) auto
    then show ?thesis using 0 1 Cons by (simp add: build_doc_def snapshot_def)
  next
    case (Suc n)
    have 1: "doc_assign (slots lib) None (name e) (?f e) = Some [(name e, ?f e)]"
      using Suc by (simp add: doc_assign_def members_of_def)
    have "fold (\<lambda>e doc. doc_assign (slots lib) doc (name e) (?f e)) pm' (Some [(name e, ?f e)])
        = Some ([(name e, ?f e)] @ take (slots lib - length [(name e, ?f e)]) (map (\<lambda>e. (name e, ?f e)) pm'))"
      using assms Cons by (intro fold_doc_assign) auto
    then show ?thesis using Suc 1 Cons by (simp add: build_doc_def snapshot_def)
  qed
qed

lemma length_quoted_token: "length (quoted (state_token l)) \<le> 5"
  by (simp add: quoted_def state_token_def escape_char_def)

lemma length_render_members:
  "length (render_members ms) \<le> (\<Sum>(k, v)\<leftarrow>ms. length (quoted k) + length (quoted v) + 2)"
  by (induction ms rule: render_members.induct) auto

lemma sum_take_le:
  fixes f :: "'a \<Rightarrow> nat"
  shows "(\<Sum>x\<leftarrow>take n xs. f x) \<le> (\<Sum>x\<leftarrow>xs. f x)"
proof -
  have "(\<Sum>x\<leftarrow>xs. f x) = (\<Sum>x\<leftarrow>take n xs. f x) + (\<Sum>x\<leftarrow>drop n xs. f x)"
    by (metis append_take_drop_id map_append sum_list_append)
  then show ?thesis by simp
qed

lemma length_render_snapshot:
  "length (render (Some (take n (snapshot pm st)))) \<le> 2 + (\<Sum>e\<leftarrow>pm. length (quoted (name e)) + 7)"
proof -
  have "length (render_members (take n (snapshot pm st)))
      \<le> (\<Sum>(k, v)\<leftarrow>take n (snapshot pm st). length (quoted k) + length (quoted v) + 2)"
    by (rule length_render_members)
  also have "\<dots> \<le> (\<Sum>(k, v)\<leftarrow>snapshot pm st. length (quoted k) + length (quoted v) + 2)"
    by (rule sum_take_le)
  also have "\<dots> \<le> (\<Sum>e\<leftarrow>pm. length (quoted (name e)) + 7)"
    unfolding snapshot_def map_map comp_def
    by (rule sum_list_mono) (use length_quoted_token in \<open>simp add: le_Suc_eq; fastforce\<close>)
  finally show ?thesis by (simp add: render_def)
qed

lemma distinct_names_pinMap: "distinct (map name pinMap)"
  by (simp add: pinMap_def)

lemma distinct_pins_pinMap: "distinct (map pin pinMap)"
  by (simp add: pinMap_def)

lemma render_pinMap_fits: "length (render (build_doc lib pinMap st)) < 256"
proof -
  have "length (render (Some (take (slots lib) (snapshot pinMap st))))
      \<le> 2 + (\<Sum>e\<leftarrow>pinMap. length (quoted (name e)) + 7)"
    by (rule length_render_snapshot)
  also have "\<dots> < 256"
    by (simp add: pinMap_def quoted_def escape_char_def)
  finally have "length (render (Some (take (slots lib) (snapshot pinMap st)))) < 256" .
  moreover have "pinMap \<noteq> []"
    by (simp add: pinMap_def)
  ultimately show ?thesis
    by (simp add: build_doc_distinct [OF distinct_names_pinMap])
qed

subsection \<open>The loops of callback\<close>

lemma pin_modes_simps [simp]:
  "pin_modes (emit e st) = pin_modes st"
  "pin_modes (digitalWrite p v st) = pin_modes st"
  "pin_modes (Serial_print s st) = pin_modes st"
  "pin_modes (Serial_println s st) = pin_modes st"
  "pin_modes (publish_state lib pm st) = pin_modes st"
  by (simp_all add: emit_def digitalWrite_def Serial_print_def Serial_println_def
      publish_state_def Let_def)

lemma set_matching_unmatched:
  "matching pm k = [] \<Longrightarrow> set_matching pm k val st = Inr st"
  by (induction pm arbitrary: st) (auto simp: matching_def split: if_splits)

lemma set_matching_None:
  "matching pm k \<noteq> [] \<Longrightarrow> set_matching pm k None st = Inl Null_pointer_read"
  by (induction pm arbitrary: st) (auto simp: matching_def split: if_splits)

lemma matching_Cons:
  "matching (e # pm) k = (if strcasecmp (name e) k = 0 then e # matching pm k else matching pm k)"
  by (simp add: matching_def)

lemma set_matching_Some:
  "\<exists>st' logs. set_matching pm k (Some t) st = Inr st'
     \<and> gpio st' = (\<lambda>q. if q \<in> pin ` set (matching pm k) then requested t else gpio st q)
     \<and> trace st' = trace st @ logs \<and> list_all is_serial logs
     \<and> connected st' = connected st \<and> attempts st' = attempts st
     \<and> pin_modes st' = pin_modes st"
proof (induction pm arbitrary: st)
  case Nil
  show ?case by (simp add: matching_def)
next
  case (Cons e pm)
  show ?case
  proof (cases "strcasecmp (name e) k = 0")
    case False
    then show ?thesis using Cons.IH [of st] by (simp add: matching_Cons)
  next
    case True
    define l where "l = requested t"
    define msg where "msg = ''Set '' @ k @ (if strcasecmp t ''on'' = 0 then '' HIGH'' else '' LOW'') @ [CHR 0x0A]"
    define st1 where "st1 = Serial_print msg (digitalWrite (pin e) l st)"
    have step: "set_matching (e # pm) k (Some t) st = set_matching pm k (Some t) st1"
      using True by (simp add: st1_def l_def msg_def requested_def)
    obtain st' logs where r: "set_matching pm k (Some t) st1 = Inr st'"
      "gpio st' = (\<lambda>q. if q \<in> pin ` set (matching pm k) then requested t else gpio st1 q)"
      "trace st' = trace st1 @ logs" "list_all is_serial logs"
      "connected st' = connected st1" "attempts st' = attempts st1"
      "pin_modes st' = pin_modes st1"
      using Cons.IH [of st1] by blast
    have "gpio st' = (\<lambda>q. if q \<in> pin ` set (matching (e # pm) k) then requested t else gpio st q)"
      using True r(2) by (auto simp: matching_Cons st1_def l_def fun_eq_iff)
    moreover have "trace st' = trace st @ (Serial_write msg # logs)"
      using r(3) by (simp add: st1_def)
    moreover have "list_all is_serial (Serial_write msg # logs)"
      using r(4) by simp
    ultimately show ?thesis
      using step r(1,5,6,7) unfolding st1_def by (intro exI [of _ st'] exI [of _ "Serial_write msg # logs"]) simp
  qed
qed

lemma published_append_serial:
  "trace st' = trace st @ logs \<Longrightarrow> list_all is_serial logs \<Longrightarrow> published st' = published st"
proof -
  assume a: "trace st' = trace st @ logs" "list_all is_serial logs"
  have "filter is_publish logs = []"
    using a(2) by (induction logs) (auto elim: is_serial.elims)
  then show ?thesis using a(1) by (simp add: published_def)
qed

lemma applicable_Cons:
  "applicable pm ((k, v) # kvs) = ((matching pm k = [] \<or> as_c_str v \<noteq> None) \<and> applicable pm kvs)"
  by (simp add: applicable_def)

lemma apply_pairs_applicable:
  "applicable pm kvs \<Longrightarrow>
   \<exists>st' logs. apply_pairs pm kvs st = Inr st'
     \<and> gpio st' = override (gpio st) (writes pm kvs)
     \<and> trace st' = trace st @ logs \<and> list_all is_serial logs
     \<and> connected st' = connected st \<and> attempts st' = attempts st
     \<and> pin_modes st' = pin_modes st"
proof (induction kvs arbitrary: st)
  case Nil
  show ?case by (simp add: override_def fun_eq_iff)
next
  case (Cons kv kvs)
  obtain k v where kv: "kv = (k, v)" by (cases kv)
  have ok: "matching pm k = [] \<or> as_c_str v \<noteq> None" and rest: "applicable pm kvs"
    using Cons.prems by (simp_all add: kv applicable_Cons)
  have "\<exists>st1 logs1. set_matching pm k (as_c_str v) st = Inr st1
     \<and> gpio st1 = override (gpio st) (writes pm [(k, v)])
     \<and> trace st1 = trace st @ logs1 \<and> list_all is_serial logs1
     \<and> connected st1 = connected st \<and> attempts st1 = attempts st
     \<and> pin_modes st1 = pin_modes st"
  proof (cases "as_c_str v")
    case None
    then have "matching pm k = []" using ok by simp
    then show ?thesis using None
      by (intro exI [of _ st] exI [of _ "[]"]) (simp add: set_matching_unmatched override_def fun_eq_iff)
  next
    case (Some t)
    then show ?thesis using set_matching_Some [of pm k t st]
      by (auto simp: override_def fun_eq_iff)
  qed
  then obtain st1 logs1 where s1: "set_matching pm k (as_c_str v) st = Inr st1"
     "gpio st1 = override (gpio st) (writes pm [(k, v)])"
     "trace st1 = trace st @ logs1" "list_all is_serial logs1"
     "connected st1 = connected st" "attempts st1 = attempts st"
     "pin_modes st1 = pin_modes st"
    by blast
  obtain st' logs where s2: "apply_pairs pm kvs st1 = Inr st'"
     "gpio st' = override (gpio st1) (writes pm kvs)"
     "trace st' = trace st1 @ logs" "list_all is_serial logs"
     "connected st' = connected st1" "attempts st' = attempts st1"
     "pin_modes st' = pin_modes st1"
    using Cons.IH [OF rest, of st1] by blast
  have "gpio st' = override (gpio st) (writes pm (kv # kvs))"
    using s1(2) s2(2) by (auto simp: kv override_def fun_eq_iff split: option.splits)
  moreover have "trace st' = trace st @ (logs1 @ logs)" "list_all is_serial (logs1 @ logs)"
    using s1(3,4) s2(3,4) by simp_all
  moreover have "apply_pairs pm (kv # kvs) st = Inr st'"
    using s1(1) s2(1) by (simp add: kv)
  moreover have "connected st' = connected st" "attempts st' = attempts st"
    "pin_modes st' = pin_modes st"
    using s1(5,6,7) s2(5,6,7) by simp_all
  ultimately show ?case by blast
qed

lemma apply_pairs_not_applicable:
  "\<not> applicable pm kvs \<Longrightarrow> apply_pairs pm kvs st = Inl Null_pointer_read"
proof (induction kvs arbitrary: st)
  case Nil
  then show ?case by (simp add: applicable_def)
next
  case (Cons kv kvs)
  obtain k v where kv: "kv = (k, v)" by (cases kv)
  show ?case
  proof (cases "matching pm k = [] \<or> as_c_str v \<noteq> None")
    case False
    then show ?thesis by (simp add: kv set_matching_None)
  next
    case True
    then have "applicable pm [(k, v)]" by (simp add: applicable_def)
    then obtain st1 where "apply_pairs pm [(k, v)] st = Inr st1"
      using apply_pairs_applicable by blast
    then have 1: "set_matching pm k (as_c_str v) st = Inr st1"
      by (simp split: sum.splits)
    have "\<not> applicable pm kvs" using Cons.prems True by (auto simp: kv applicable_Cons)
    then show ?thesis using Cons.IH 1 by (simp add: kv)
  qed
qed

subsection \<open>The outcomes of callback\<close>

lemma callback_overrun:
  "length payload \<le> len \<Longrightarrow> callback lib pm topic payload len st = Inl Out_of_bounds_write"
  by (simp add: callback_def)

lemma left_in_buffer_cong:
  "gpio st = gpio st' \<Longrightarrow> left_in_buffer lib pm payload len st = left_in_buffer lib pm payload len st'"
  using build_doc_cong [of st st' lib pm] by (simp add: left_in_buffer_def split: sum.splits)

lemma left_in_buffer_reading:
  "decode_writes lib = (\<lambda>buf. buf) \<Longrightarrow> publish_writes lib = (\<lambda>p buf. buf) \<Longrightarrow>
   left_in_buffer lib pm payload len st' = payload[len := NUL]"
  by (simp add: left_in_buffer_def split: sum.splits)

lemma left_in_buffer_esp8266 [simp]:
  "left_in_buffer esp8266_lib pm payload len st' = payload[len := NUL]"
  by (rule left_in_buffer_reading) (simp_all add: esp8266_lib_def)

lemma callback_decode_error:
  assumes "len < length payload"
    and "deserializeJson lib (c_str (payload[len := NUL])) = Inl err"
  shows "\<exists>st'. callback lib pm topic payload len st = Inr (left_in_buffer lib pm payload len st', st')
           \<and> gpio st' = gpio st \<and> published st' = published st
           \<and> connected st' = connected st \<and> attempts st' = attempts st"
  using assms by (simp add: callback_def Let_def left_in_buffer_def)

lemma callback_applicable:
  assumes "len < length payload"
    and "deserializeJson lib (c_str (payload[len := NUL])) = Inr doc"
    and "applicable pm (as_JsonObject doc)"
  shows "\<exists>st'. callback lib pm topic payload len st = Inr (left_in_buffer lib pm payload len st', st')
           \<and> gpio st' = override (gpio st) (writes pm (as_JsonObject doc))
           \<and> published st' = published st @
                [MQTT_publish state_topic (serializeJson lib (build_doc lib pm st') 256) True]
           \<and> connected st' = connected st \<and> attempts st' = attempts st"
proof -
  define st1 where "st1 = Serial_println (c_str (payload[len := NUL]))
                    (Serial_print '']: ''
                      (Serial_print topic
                        (Serial_print ''Message arrived ['' st)))"
  obtain st2 logs where a: "apply_pairs pm (as_JsonObject doc) st1 = Inr st2"
     "gpio st2 = override (gpio st1) (writes pm (as_JsonObject doc))"
     "trace st2 = trace st1 @ logs" "list_all is_serial logs"
     "connected st2 = connected st1" "attempts st2 = attempts st1"
    using apply_pairs_applicable [OF assms(3), of st1] by blast
  have p2: "published st2 = published st"
    using published_append_serial [OF a(3,4)] by (simp add: st1_def)
  have cb: "callback lib pm topic payload len st =
      Inr (left_in_buffer lib pm payload len (publish_state lib pm st2), publish_state lib pm st2)"
    using assms(1,2) a(1) by (simp add: callback_def Let_def st1_def left_in_buffer_def)
  have bd: "build_doc lib pm (publish_state lib pm st2) = build_doc lib pm st2"
    by (rule build_doc_cong) simp
  show ?thesis
    using cb a(2,5,6) p2 bd
    by (intro exI [of _ "publish_state lib pm st2"]) (simp add: published_publish_state st1_def)
qed

lemma callback_not_applicable:
  assumes "len < length payload"
    and "deserializeJson lib (c_str (payload[len := NUL])) = Inr doc"
    and "\<not> applicable pm (as_JsonObject doc)"
  shows "callback lib pm topic payload len st = Inl Null_pointer_read"
  using assms by (simp add: callback_def Let_def apply_pairs_not_applicable)

lemma c_str_terminated:
  "len < length payload \<Longrightarrow> c_str (payload[len := NUL]) = c_str (take len payload)"
proof -
  assume a: "len < length payload"
  have "payload[len := NUL] = take len payload @ NUL # drop (Suc len) payload"
    using a by (rule upd_conv_take_nth_drop)
  then show ?thesis
    by (simp add: c_str_def takeWhile_tail)
qed

lemma callback_buffer:
  "callback lib pm topic payload len st = Inr (buf, st') \<Longrightarrow>
   buf = left_in_buffer lib pm payload len st'"
  by (auto simp: callback_def Let_def left_in_buffer_def split: if_splits sum.splits)

lemma callback_decoder_text:
  assumes "deserializeJson lib' (c_str (payload[len := NUL])) = deserializeJson lib (c_str (payload[len := NUL]))"
    and "slots lib' = slots lib" and "overflow lib' = overflow lib"
    and "decode_writes lib' = decode_writes lib" and "publish_writes lib' = publish_writes lib"
  shows "callback lib' pm topic payload len st = callback lib pm topic payload len st"
proof -
  have "publish_state lib' pm = publish_state lib pm"
    using assms(2,3) by (simp add: fun_eq_iff publish_state_def build_doc_def serializeJson_def)
  moreover have "build_doc lib' pm = build_doc lib pm"
    using assms(2) by (simp add: fun_eq_iff build_doc_def)
  moreover have "serializeJson lib' = serializeJson lib"
    using assms(3) by (simp add: fun_eq_iff serializeJson_def)
  ultimately show ?thesis
    using assms(1,4,5) by (simp add: callback_def Let_def split: sum.splits)
qed

lemma writes_untouched:
  "\<forall>(k, v) \<in> set kvs. q \<notin> pin ` set (matching pm k) \<Longrightarrow> writes pm kvs q = None"
  by (induction kvs) (auto split: option.splits)

lemma pin_matching_distinct:
  assumes "distinct (map pin pm)" "e \<in> set pm" "strcasecmp (name e) k \<noteq> 0"
  shows "pin e \<notin> pin ` set (matching pm k)"
proof
  assume "pin e \<in> pin ` set (matching pm k)"
  then obtain e' where e': "e' \<in> set pm" "strcasecmp (name e') k = 0" "pin e' = pin e"
    by (auto simp: matching_def)
  then have "e' = e"
    using assms(1,2) by (meson distinct_map inj_on_def)
  then show False using e'(2) assms(3) by simp
qed

lemma writes_drop_unmatched:
  "matching pm k = [] \<Longrightarrow> writes pm (pre @ (k, v) # post) = writes pm (pre @ post)"
  by (induction pre) (auto simp: fun_eq_iff split: option.splits)

lemma apply_pairs_append:
  "apply_pairs pm (xs @ ys) st =
     (case apply_pairs pm xs st of Inl f \<Rightarrow> Inl f | Inr st' \<Rightarrow> apply_pairs pm ys st')"
  by (induction xs arbitrary: st) (auto split: sum.splits)

lemma apply_pairs_drop_unmatched:
  "matching pm k = [] \<Longrightarrow> apply_pairs pm (pre @ (k, v) # post) st = apply_pairs pm (pre @ post) st"
  by (simp add: apply_pairs_append set_matching_unmatched split: sum.splits)

lemma override_idem: "override (override g w) w = override g w"
  by (simp add: override_def fun_eq_iff split: option.splits)

subsection \<open>reconnect\<close>

lemma network_emit:
  "network (emit e st) = network st @ (if is_serial e then [] else [e])"
  by (simp add: network_def)

lemma network_Serial [simp]:
  "network (Serial_print s st) = network st"
  "network (Serial_println s st) = network st"
  by (simp_all add: Serial_print_def Serial_println_def network_emit)

lemma network_publish_state:
  "network (publish_state lib pm st) =
     network st @ [MQTT_publish state_topic (serializeJson lib (build_doc lib pm st) 256) True]"
  by (simp add: publish_state_def Let_def network_emit)

lemma network_update [simp]:
  "network (st\<lparr>connected := c\<rparr>) = network st"
  "network (st\<lparr>attempts := n\<rparr>) = network st"
  by (simp_all add: network_def)

lemma try_connect_facts:
  "connected (try_connect st) = connected st"
  "attempts (try_connect st) = attempts st + 1"
  "gpio (try_connect st) = gpio st"
  "network (try_connect st) =
     network st @ [MQTT_connect ''ESP8266ApplianceClient'' mqtt_user mqtt_pass]"
  by (simp_all add: try_connect_def network_emit)

lemma refused_step_facts:
  "connected (refused_step rc st) = connected st"
  "attempts (refused_step rc st) = attempts st + 1"
  "gpio (refused_step rc st) = gpio st"
  "network (refused_step rc st) =
     network st @ [MQTT_connect ''ESP8266ApplianceClient'' mqtt_user mqtt_pass, Delay 5000]"
  by (simp_all add: refused_step_def network_emit try_connect_facts)

lemma accepted_step_facts:
  "connected (accepted_step lib pm st)"
  "attempts (accepted_step lib pm st) = attempts st + 1"
  "gpio (accepted_step lib pm st) = gpio st"
  "network (accepted_step lib pm st) =
     network st @
       [MQTT_connect ''ESP8266ApplianceClient'' mqtt_user mqtt_pass,
        MQTT_subscribe control_topic,
        MQTT_publish state_topic (serializeJson lib (build_doc lib pm st) 256) True]"
proof -
  let ?s = "emit (MQTT_subscribe control_topic)
              (Serial_println ''connected'' ((try_connect st)\<lparr>connected := True\<rparr>))"
  have "gpio ?s = gpio st"
    by (simp add: try_connect_facts)
  then have "build_doc lib pm ?s = build_doc lib pm st"
    by (rule build_doc_cong)
  then show "network (accepted_step lib pm st) =
     network st @
       [MQTT_connect ''ESP8266ApplianceClient'' mqtt_user mqtt_pass,
        MQTT_subscribe control_topic,
        MQTT_publish state_topic (serializeJson lib (build_doc lib pm st) 256) True]"
    by (simp add: accepted_step_def network_publish_state network_emit try_connect_facts)
qed (simp_all add: accepted_step_def try_connect_facts)

lemma reconnect_connected:
  "connected st \<Longrightarrow> reconnect broker lib pm st = Some st"
  by (simp add: reconnect.simps)

lemma reconnect_refused:
  "\<not> connected st \<Longrightarrow> broker (attempts st) = Refused rc \<Longrightarrow>
   reconnect broker lib pm st = reconnect broker lib pm (refused_step rc st)"
  by (subst reconnect.simps) simp

lemma reconnect_accepted:
  "\<not> connected st \<Longrightarrow> broker (attempts st) = Accepted \<Longrightarrow>
   reconnect broker lib pm st = Some (accepted_step lib pm st)"
  by (subst reconnect.simps) (simp add: reconnect_connected accepted_step_facts)

lemma reconnect_retries:
  assumes "\<not> connected st"
    and "\<forall>j<k. \<exists>rc. broker (attempts st + j) = Refused rc"
    and "broker (attempts st + k) = Accepted"
  shows "\<exists>st'. reconnect broker lib pm st = Some st' \<and> connected st' \<and> gpio st' = gpio st
           \<and> attempts st' = attempts st + k + 1
           \<and> network st' = network st @
                concat (replicate k [MQTT_connect ''ESP8266ApplianceClient'' mqtt_user mqtt_pass,
                                     Delay 5000]) @
                [MQTT_connect ''ESP8266ApplianceClient'' mqtt_user mqtt_pass,
                 MQTT_subscribe control_topic,
                 MQTT_publish state_topic (serializeJson lib (build_doc lib pm st) 256) True]"
  using assms
proof (induction k arbitrary: st)
  case 0
  then show ?case
    by (intro exI [of _ "accepted_step lib pm st"]) (simp add: reconnect_accepted accepted_step_facts)
next
  case (Suc k)
  obtain rc where rc: "broker (attempts st) = Refused rc"
    using Suc.prems(2) by (metis add.right_neutral zero_less_Suc)
  define st1 where "st1 = refused_step rc st"
  have step: "reconnect broker lib pm st = reconnect broker lib pm st1"
    unfolding st1_def using Suc.prems(1) rc by (rule reconnect_refused)
  have f: "\<not> connected st1" "attempts st1 = attempts st + 1" "gpio st1 = gpio st"
    "network st1 = network st @ [MQTT_connect ''ESP8266ApplianceClient'' mqtt_user mqtt_pass, Delay 5000]"
    using Suc.prems(1) by (simp_all add: st1_def refused_step_facts)
  have a2: "\<forall>j<k. \<exists>rc. broker (attempts st1 + j) = Refused rc"
  proof (intro allI impI)
    fix j assume "j < k"
    then have "Suc j < Suc k" by simp
    then show "\<exists>rc. broker (attempts st1 + j) = Refused rc"
      using Suc.prems(2) f(2) by (metis add_Suc_right add_Suc Suc_eq_plus1)
  qed
  have a3: "broker (attempts st1 + k) = Accepted"
    using Suc.prems(3) f(2) by simp
  obtain st' where r: "reconnect broker lib pm st1 = Some st'" "connected st'" "gpio st' = gpio st1"
     "attempts st' = attempts st1 + k + 1"
     "network st' = network st1 @
                concat (replicate k [MQTT_connect ''ESP8266ApplianceClient'' mqtt_user mqtt_pass,
                                     Delay 5000]) @
                [MQTT_connect ''ESP8266ApplianceClient'' mqtt_user mqtt_pass,
                 MQTT_subscribe control_topic,
                 MQTT_publish state_topic (serializeJson lib (build_doc lib pm st1) 256) True]"
    using Suc.IH [OF f(1) a2 a3] by blast
  have bd: "build_doc lib pm st1 = build_doc lib pm st"
    using f(3) by (rule build_doc_cong)
  show ?case
    using step r f bd by (intro exI [of _ st']) simp
qed

lemma reconnect_returns_only_after_accept:
  assumes "reconnect broker lib pm st = Some st'"
  shows "connected st \<or> (\<exists>i. broker i = Accepted)"
proof (rule reconnect.raw_induct
    [where P = "\<lambda>broker lib pm st st'. connected st \<or> (\<exists>i. broker i = Accepted)", OF _ assms])
  fix f :: "(nat \<Rightarrow> attempt) \<Rightarrow> libraries \<Rightarrow> PinMap list \<Rightarrow> device \<Rightarrow> device option"
  fix broker lib pm st st'
  assume IH: "\<And>broker lib pm st st'. f broker lib pm st = Some st' \<Longrightarrow>
                 connected st \<or> (\<exists>i. broker i = Accepted)"
  assume body: "(if connected st then Some st
      else
        (case broker (attempts st) of
           Accepted \<Rightarrow> f broker lib pm (accepted_step lib pm st)
         | Refused rc \<Rightarrow> f broker lib pm (refused_step rc st))) = Some st'"
  show "connected st \<or> (\<exists>i. broker i = Accepted)"
  proof (cases "connected st")
    case True
    then show ?thesis by simp
  next
    case False
    show ?thesis
    proof (cases "broker (attempts st)")
      case Accepted
      then show ?thesis by blast
    next
      case (Refused rc)
      then have "f broker lib pm (refused_step rc st) = Some st'"
        using body False by simp
      then have "connected (refused_step rc st) \<or> (\<exists>i. broker i = Accepted)"
        by (rule IH)
      then show ?thesis using False by (simp add: refused_step_facts)
    qed
  qed
qed

subsection \<open>Fail-safe boot\<close>

text \<open>
  C3. Whatever the pins held before, after \<open>setupPins\<close> every channel of the table
  reads LOW (deasserted).
\<close>

theorem setupPins_all_deasserted:
  "\<forall>e \<in> set pm. digitalRead (setupPins pm st) (pin e) = LOW"
  by (simp add: digitalRead_def setupPins_gpio)

theorem setupPins_all_deasserted_witness:
  "digitalRead all_high 2 = HIGH \<and> \<lparr>name = ''d4'', pin = 2\<rparr> \<in> set pinMap \<and>
   digitalRead (setupPins pinMap all_high) (pin \<lparr>name = ''d4'', pin = 2\<rparr>) = LOW"
  using setupPins_all_deasserted [of pinMap all_high]
  by (simp add: pinMap_def all_high_def digitalRead_def)

subsection \<open>No truncated payload\<close>

lemmas decoder_defs = flat_decoder_def scan_value_def scan_string_def skip_ws_def
  is_space_def digit_of_def

lemma build_doc_pinMap:
  "9 \<le> slots lib \<Longrightarrow> build_doc lib pinMap st = Some (snapshot pinMap st)"
proof -
  assume "9 \<le> slots lib"
  moreover have "length (snapshot pinMap st) = 9" "pinMap \<noteq> []"
    by (simp_all add: snapshot_def pinMap_def)
  ultimately show ?thesis
    by (simp add: build_doc_distinct [OF distinct_names_pinMap])
qed



subsection \<open>Snapshot completeness\<close>

text \<open>
  C6. For a table with distinct names that fits the document pool and whose encoding is
  shorter than the 256-byte buffer, the one publish carries the encoding of a document
  with exactly one member per table entry, in table order, whose value is \<open>on\<close> where
  the entry's pin reads HIGH and \<open>off\<close> otherwise, whatever was done to the pins before.
\<close>

theorem publish_state_snapshot_complete:
  assumes "distinct (map name pm)"
    and "length pm \<le> slots lib"
    and "length (render (build_doc lib pm st)) < 256"
  shows "published (publish_state lib pm st) =
           published st @ [MQTT_publish state_topic (render (build_doc lib pm st)) True]
       \<and> members_of (build_doc lib pm st) = snapshot pm st
       \<and> length (snapshot pm st) = length pm
       \<and> map fst (snapshot pm st) = map name pm
       \<and> map snd (snapshot pm st) =
           map (\<lambda>e. if digitalRead st (pin e) = HIGH then ''on'' else ''off'') pm"
proof -
  have "members_of (build_doc lib pm st) = snapshot pm st"
    using assms(2) by (simp add: build_doc_distinct [OF assms(1)] members_of_def snapshot_def)
  moreover have "serializeJson lib (build_doc lib pm st) 256 = render (build_doc lib pm st)"
    using assms(3) by (simp add: serializeJson_def)
  ultimately show ?thesis
    by (simp add: published_publish_state) (simp add: snapshot_def state_token_def comp_def)
qed

text \<open>The table of the source meets these conditions in every state.\<close>

lemma pinMap_fits:
  "distinct (map name pinMap) \<and> (9 \<le> slots lib \<longrightarrow> length pinMap \<le> slots lib)
     \<and> length (render (build_doc lib pinMap st)) < 256"
  by (simp add: distinct_names_pinMap render_pinMap_fits) (simp add: pinMap_def)

lemma publish_state_pinMap_complete:
  assumes "9 \<le> slots lib"
  shows "published (publish_state lib pinMap st) =
           published st @ [MQTT_publish state_topic (render (Some (snapshot pinMap st))) True]
       \<and> length (snapshot pinMap st) = 9
       \<and> map fst (snapshot pinMap st) = map name pinMap
       \<and> map snd (snapshot pinMap st) =
           map (\<lambda>e. if digitalRead st (pin e) = HIGH then ''on'' else ''off'') pinMap"
proof -
  have "published (publish_state lib pinMap st) =
           published st @ [MQTT_publish state_topic (render (build_doc lib pinMap st)) True]"
    by (simp add: published_publish_state serializeJson_def render_pinMap_fits)
  then show ?thesis
    using assms by (simp add: build_doc_pinMap) (simp add: snapshot_def state_token_def pinMap_def)
qed

theorem publish_state_snapshot_complete_witness:
  \<open>distinct (map name pinMap) \<and> length pinMap \<le> slots esp8266_lib \<and>
   length (render (build_doc esp8266_lib pinMap all_high)) < 256 \<and>
   published (publish_state esp8266_lib pinMap all_high) =
     [MQTT_publish state_topic
        ''{"d0":"on","d1":"on","d2":"on","d3":"on","d4":"on","d5":"on","d6":"on","d7":"on","d8":"on"}''
        True]\<close>
proof -
  have h1: "distinct (map name pinMap)" by (rule distinct_names_pinMap)
  have h2: "length pinMap \<le> slots esp8266_lib" by (simp add: pinMap_def esp8266_lib_def)
  have h3: "length (render (build_doc esp8266_lib pinMap all_high)) < 256" by (rule render_pinMap_fits)
  have r: \<open>render (build_doc esp8266_lib pinMap all_high) =
     ''{"d0":"on","d1":"on","d2":"on","d3":"on","d4":"on","d5":"on","d6":"on","d7":"on","d8":"on"}''\<close>
    using h2 by (simp add: build_doc_distinct [OF h1])
      (simp add: pinMap_def snapshot_def render_def quoted_def escape_char_def state_token_def
        digitalRead_def all_high_def)
  show ?thesis
    using publish_state_snapshot_complete [OF h1 h2 h3] h1 h2 h3 r
    by (simp add: published_def all_high_def)
qed

subsection \<open>Tables that do not fit\<close>

text \<open>
  The two results above rest on the table. \<open>publish_state\<close> itself has no branch for a
  text that does not fit: with a table of one channel whose name has 250 characters,
  or of three channels with names of 100 characters, and a library that cuts the text
  to the buffer, the publish is made with the first 255 characters of the encoding.
\<close>

lemma concat_escape_replicate:
  "escape_char c = [c] \<Longrightarrow> concat (map escape_char (replicate n c)) = replicate n c"
  by (induction n) simp_all

lemma build_doc_long_name_table:
  "build_doc esp8266_lib long_name_table all_high = Some [(replicate 250 (CHR ''x''), ''on'')]"
  by (simp add: build_doc_def long_name_table_def doc_assign_def members_of_def esp8266_lib_def
      state_token_def digitalRead_def all_high_def)

lemma render_long_name_table:
  "render (build_doc esp8266_lib long_name_table all_high) =
     ''{'' @ [CHR 0x22] @ replicate 250 (CHR ''x'') @ [CHR 0x22, CHR '':'', CHR 0x22] @ ''on'' @ [CHR 0x22] @ ''}''"
  by (simp add: build_doc_long_name_table render_def quoted_def concat_escape_replicate escape_char_def)

lemma publish_state_overflow_still_publishes:
  "length (render (build_doc esp8266_lib long_name_table all_high)) = 259 \<and>
   published (publish_state esp8266_lib long_name_table all_high) =
     [MQTT_publish state_topic
        (''{'' @ [CHR 0x22] @ replicate 250 (CHR ''x'') @ [CHR 0x22, CHR '':'', CHR 0x22]) True]"
proof -
  have l: "length (render (build_doc esp8266_lib long_name_table all_high)) = 259"
    by (simp add: render_long_name_table)
  have "serializeJson esp8266_lib (build_doc esp8266_lib long_name_table all_high) 256
      = take 255 (render (build_doc esp8266_lib long_name_table all_high))"
    using l by (simp add: serializeJson_def esp8266_lib_def)
  also have "\<dots> = ''{'' @ [CHR 0x22] @ replicate 250 (CHR ''x'') @ [CHR 0x22, CHR '':'', CHR 0x22]"
    by (simp add: render_long_name_table)
  finally show ?thesis
    using l by (simp add: published_publish_state) (simp add: published_def all_high_def)
qed

lemma build_doc_three_long_names:
  "build_doc esp8266_lib three_long_names all_high =
     Some [(replicate 100 (CHR ''a''), ''on''), (replicate 100 (CHR ''b''), ''on''),
           (replicate 100 (CHR ''c''), ''on'')]"
proof -
  have "distinct (map name three_long_names)"
    by (simp add: three_long_names_def replicate_eq_replicate)
  then show ?thesis
    by (simp add: build_doc_distinct) (simp add: three_long_names_def snapshot_def esp8266_lib_def
        state_token_def digitalRead_def all_high_def)
qed

lemma publish_state_truncated_snapshot:
  "distinct (map name three_long_names) \<and> length three_long_names = 3 \<and>
   length (render (Some (snapshot three_long_names all_high))) = 325 \<and>
   published (publish_state esp8266_lib three_long_names all_high) =
     [MQTT_publish state_topic
        (take 255 (render (Some (snapshot three_long_names all_high)))) True]"
proof -
  have d: "distinct (map name three_long_names)"
    by (simp add: three_long_names_def replicate_eq_replicate)
  have s: "build_doc esp8266_lib three_long_names all_high = Some (snapshot three_long_names all_high)"
    by (simp add: build_doc_three_long_names) (simp add: three_long_names_def snapshot_def
        state_token_def digitalRead_def all_high_def)
  have l: "length (render (Some (snapshot three_long_names all_high))) = 325"
    unfolding s [symmetric]
    by (simp add: build_doc_three_long_names render_def quoted_def length_concat
        escape_char_def comp_def sum_list_replicate)
  have "serializeJson esp8266_lib (build_doc esp8266_lib three_long_names all_high) 256
      = take 255 (render (Some (snapshot three_long_names all_high)))"
    unfolding s using l by (simp add: serializeJson_def esp8266_lib_def)
  then have "published (publish_state esp8266_lib three_long_names all_high) =
           [MQTT_publish state_topic (take 255 (render (Some (snapshot three_long_names all_high)))) True]"
    by (simp add: published_publish_state) (simp add: published_def all_high_def)
  then show ?thesis
    using d l by (simp add: three_long_names_def)
qed

subsection \<open>Decode failure is inert\<close>

text \<open>
  C2. Where the caller's buffer has room for the terminator and the decoder rejects the
  text, \<open>callback\<close> returns normally, no pin has changed, and neither a publish nor any
  other call to the MQTT client or to \<open>delay\<close> has been made: the trace gains serial
  output only.
\<close>

theorem callback_decode_failure_inert:
  assumes "len < length payload"
    and "deserializeJson lib (c_str (payload[len := NUL])) = Inl err"
  shows "\<exists>st'. callback lib pm topic payload len st = Inr (left_in_buffer lib pm payload len st', st')
           \<and> gpio st' = gpio st \<and> published st' = published st \<and> network st' = network st"
proof -
  have "network
     (Serial_println (error_c_str err)
       (Serial_print ''deserializeJson() failed: ''
         (Serial_println (c_str (payload[len := NUL]))
           (Serial_print '']: '' (Serial_print topic (Serial_print ''Message arrived ['' st)))))) =
    network st"
    by simp
  then show ?thesis
    using assms by (simp add: callback_def Let_def left_in_buffer_def)
qed

theorem callback_decode_failure_inert_witness:
  "5 < length ''hello?'' \<and>
   deserializeJson esp8266_lib (c_str (''hello?''[5 := NUL])) = Inl InvalidInput \<and>
   (\<exists>st'. callback esp8266_lib pinMap control_topic ''hello?'' 5 all_high
            = Inr (''hello?''[5 := NUL], st')
        \<and> gpio st' = gpio all_high \<and> published st' = [] \<and> network st' = [])"
proof -
  have h1: "5 < length ''hello?''" by simp
  have h2: "deserializeJson esp8266_lib (c_str (''hello?''[5 := NUL])) = Inl InvalidInput"
    by (simp add: c_str_def NUL_def esp8266_lib_def decoder_defs)
  have e: "published all_high = []" "network all_high = []"
    by (simp_all add: published_def network_def all_high_def)
  show ?thesis
    using callback_decode_failure_inert [OF h1 h2, of pinMap control_topic all_high] h1 h2 e
    by simp
qed

subsection \<open>The terminator\<close>

lemma apply_pairs_fault: "apply_pairs pm kvs st = Inl f \<Longrightarrow> f = Null_pointer_read"
  using apply_pairs_applicable [of pm kvs st] apply_pairs_not_applicable [of pm kvs st]
  by (cases "applicable pm kvs") auto

text \<open>
  C10, as the code has it. \<open>callback\<close> writes NUL at index \<open>len\<close> of the caller's
  buffer before anything else looks at it. A buffer of \<open>len\<close> bytes or fewer makes that
  write fall outside it; a longer one never does. With the write in bounds the decoder
  is given the message body (up to a NUL of its own), also when it then rejects the
  text. It is the only write of the handler's own statements: the buffer the handler
  returns is what the decoder and, after a successful decode, the client leave of the
  terminated buffer, and with libraries that only read it that is the input with the
  one byte replaced: same length, NUL at \<open>len\<close>, every other byte as before. The
  libraries are consulted on the terminated buffer alone: two that agree on its text
  and on what they write give the same outcome.
\<close>

theorem callback_writes_terminator:
  "(length payload \<le> len \<longrightarrow> callback lib pm topic payload len st = Inl Out_of_bounds_write)
   \<and> (len < length payload \<longrightarrow>
        callback lib pm topic payload len st \<noteq> Inl Out_of_bounds_write
        \<and> c_str (payload[len := NUL]) = c_str (take len payload)
        \<and> (\<forall>err. deserializeJson lib (c_str (payload[len := NUL])) = Inl err \<longrightarrow>
             (\<exists>st'. callback lib pm topic payload len st
                      = Inr (decode_writes lib (payload[len := NUL]), st'))))
   \<and> (\<forall>buf st'. callback lib pm topic payload len st = Inr (buf, st') \<longrightarrow>
        buf = left_in_buffer lib pm payload len st'
        \<and> (decode_writes lib = (\<lambda>b. b) \<and> publish_writes lib = (\<lambda>p b. b) \<longrightarrow>
             buf = payload[len := NUL] \<and> length buf = length payload \<and> buf ! len = NUL
             \<and> (\<forall>i < length payload. i \<noteq> len \<longrightarrow> buf ! i = payload ! i)))
   \<and> (\<forall>lib'. deserializeJson lib' (c_str (payload[len := NUL]))
                 = deserializeJson lib (c_str (payload[len := NUL]))
              \<and> slots lib' = slots lib \<and> overflow lib' = overflow lib
              \<and> decode_writes lib' = decode_writes lib
              \<and> publish_writes lib' = publish_writes lib \<longrightarrow>
              callback lib' pm topic payload len st = callback lib pm topic payload len st)"
proof (intro conjI allI impI)
  assume "length payload \<le> len"
  then show "callback lib pm topic payload len st = Inl Out_of_bounds_write"
    by (rule callback_overrun)
next
  assume "len < length payload"
  then show "callback lib pm topic payload len st \<noteq> Inl Out_of_bounds_write"
    by (auto simp: callback_def Let_def split: sum.splits dest: apply_pairs_fault)
next
  assume "len < length payload"
  then show "c_str (payload[len := NUL]) = c_str (take len payload)"
    by (rule c_str_terminated)
next
  fix err
  assume "len < length payload" "deserializeJson lib (c_str (payload[len := NUL])) = Inl err"
  then show "\<exists>st'. callback lib pm topic payload len st
                = Inr (decode_writes lib (payload[len := NUL]), st')"
    by (simp add: callback_def Let_def)
next
  fix buf st'
  assume r: "callback lib pm topic payload len st = Inr (buf, st')"
  then show "buf = left_in_buffer lib pm payload len st'"
    by (rule callback_buffer)
next
  fix buf st'
  assume r: "callback lib pm topic payload len st = Inr (buf, st')"
    and rd: "decode_writes lib = (\<lambda>b. b) \<and> publish_writes lib = (\<lambda>p b. b)"
  have lt: "len < length payload"
    using r by (auto simp: callback_def split: if_splits)
  have "buf = left_in_buffer lib pm payload len st'"
    using r by (rule callback_buffer)
  then show b: "buf = payload[len := NUL]"
    using rd by (simp add: left_in_buffer_reading)
  show "length buf = length payload" "buf ! len = NUL"
    using b lt by simp_all
  fix i
  assume "i < length payload" "i \<noteq> len"
  then show "buf ! i = payload ! i"
    using b by simp
next
  fix lib' :: libraries
  assume "deserializeJson lib' (c_str (payload[len := NUL]))
                 = deserializeJson lib (c_str (payload[len := NUL]))
              \<and> slots lib' = slots lib \<and> overflow lib' = overflow lib
              \<and> decode_writes lib' = decode_writes lib
              \<and> publish_writes lib' = publish_writes lib"
  then show "callback lib' pm topic payload len st = callback lib pm topic payload len st"
    using callback_decoder_text by blast
qed

theorem callback_writes_terminator_witness:
  \<open>callback esp8266_lib pinMap control_topic ''{"d0":"on"}'' 11 all_low = Inl Out_of_bounds_write \<and>
   5 < length ''hello?'' \<and>
   deserializeJson esp8266_lib (c_str (''hello?''[5 := NUL])) = Inl InvalidInput \<and>
   c_str (''hello?''[5 := NUL]) = ''hello'' \<and>
   decode_writes esp8266_lib = (\<lambda>b. b) \<and> publish_writes esp8266_lib = (\<lambda>p b. b) \<and>
   (\<exists>buf st'. callback esp8266_lib pinMap control_topic ''hello?'' 5 all_low = Inr (buf, st') \<and>
      buf = ''hello'' @ [NUL] \<and> length buf = length ''hello?'' \<and> buf ! 5 = NUL \<and>
      buf ! 0 = ''hello?'' ! 0) \<and>
   callback (esp8266_lib\<lparr>deserializeJson := (\<lambda>s. Inl InvalidInput)\<rparr>) pinMap control_topic
       ''hello?'' 5 all_low
     = callback esp8266_lib pinMap control_topic ''hello?'' 5 all_low\<close>
proof -
  have h0: \<open>length ''{"d0":"on"}'' \<le> 11\<close> by simp
  have h1: "5 < length ''hello?''" by simp
  have h2: "deserializeJson esp8266_lib (c_str (''hello?''[5 := NUL])) = Inl InvalidInput"
    by (simp add: c_str_def NUL_def esp8266_lib_def decoder_defs)
  have h3: "deserializeJson (esp8266_lib\<lparr>deserializeJson := (\<lambda>s. Inl InvalidInput)\<rparr>)
              (c_str (''hello?''[5 := NUL]))
            = deserializeJson esp8266_lib (c_str (''hello?''[5 := NUL]))
          \<and> slots (esp8266_lib\<lparr>deserializeJson := (\<lambda>s. Inl InvalidInput)\<rparr>) = slots esp8266_lib
          \<and> overflow (esp8266_lib\<lparr>deserializeJson := (\<lambda>s. Inl InvalidInput)\<rparr>) = overflow esp8266_lib
          \<and> decode_writes (esp8266_lib\<lparr>deserializeJson := (\<lambda>s. Inl InvalidInput)\<rparr>)
              = decode_writes esp8266_lib
          \<and> publish_writes (esp8266_lib\<lparr>deserializeJson := (\<lambda>s. Inl InvalidInput)\<rparr>)
              = publish_writes esp8266_lib"
    using h2 by simp
  have h4: "decode_writes esp8266_lib = (\<lambda>b. b) \<and> publish_writes esp8266_lib = (\<lambda>p b. b)"
    by (simp add: esp8266_lib_def)
  note t1 = callback_writes_terminator
    [of \<open>''{"d0":"on"}''\<close> 11 esp8266_lib pinMap control_topic all_low]
  note t2 = callback_writes_terminator [of "''hello?''" 5 esp8266_lib pinMap control_topic all_low]
  have a: \<open>callback esp8266_lib pinMap control_topic ''{"d0":"on"}'' 11 all_low = Inl Out_of_bounds_write\<close>
    using t1 h0 by blast
  have b: "c_str (''hello?''[5 := NUL]) = c_str (take 5 ''hello?'')"
    using t2 h1 by blast
  obtain st' where c: "callback esp8266_lib pinMap control_topic ''hello?'' 5 all_low
            = Inr (decode_writes esp8266_lib (''hello?''[5 := NUL]), st')"
    using t2 h1 h2 by blast
  define buf where "buf = decode_writes esp8266_lib (''hello?''[5 := NUL])"
  have c': "callback esp8266_lib pinMap control_topic ''hello?'' 5 all_low = Inr (buf, st')"
    using c by (simp add: buf_def)
  have d0: "buf = ''hello?''[5 := NUL] \<and> length buf = length ''hello?'' \<and> buf ! 5 = NUL
      \<and> (\<forall>i < length ''hello?''. i \<noteq> 5 \<longrightarrow> buf ! i = ''hello?'' ! i)"
    using t2 c' h4 by blast
  then have d: "buf = ''hello?''[5 := NUL]" "length buf = length ''hello?''" "buf ! 5 = NUL"
    "buf ! 0 = ''hello?'' ! 0"
    by simp_all
  have e: "callback (esp8266_lib\<lparr>deserializeJson := (\<lambda>s. Inl InvalidInput)\<rparr>) pinMap control_topic
       ''hello?'' 5 all_low
     = callback esp8266_lib pinMap control_topic ''hello?'' 5 all_low"
    using t2 h3 by blast
  have f: "''hello?''[5 := NUL] = ''hello'' @ [NUL]" by simp
  have ex: "\<exists>buf st'. callback esp8266_lib pinMap control_topic ''hello?'' 5 all_low = Inr (buf, st') \<and>
      buf = ''hello'' @ [NUL] \<and> length buf = length ''hello?'' \<and> buf ! 5 = NUL \<and>
      buf ! 0 = ''hello?'' ! 0"
    using c' d unfolding f by blast
  show ?thesis
    using a b e h1 h2 h4 ex by (simp add: c_str_def NUL_def)
qed

text \<open>
  C10, as stated, goes further: it makes that write the only change to the input. With
  a decoder that works in place the buffer the handler returns has changed elsewhere
  too. For the message \<open>{"d0":"on"}\<close> in a buffer of 12 bytes, the first six bytes
  have become the two strings of the message, each with its terminator.
\<close>

theorem callback_decoder_writes_in_place:
  \<open>11 < length ''{"d0":"on"}?'' \<and>
   ''{"d0":"on"}?'' ! 0 = CHR ''{'' \<and>
   (\<exists>buf st'. callback inplace_lib pinMap control_topic ''{"d0":"on"}?'' 11 all_low = Inr (buf, st')
      \<and> buf = [CHR ''d'', CHR ''0'', NUL, CHR ''o'', CHR ''n'', NUL, CHR 0x22,
                CHR ''o'', CHR ''n'', CHR 0x22, CHR ''}'', NUL]
      \<and> buf ! 0 = CHR ''d''
      \<and> buf \<noteq> ''{"d0":"on"}?''[11 := NUL])\<close>
proof -
  have h1: \<open>11 < length ''{"d0":"on"}?''\<close> by simp
  have h2: \<open>deserializeJson inplace_lib (c_str (''{"d0":"on"}?''[11 := NUL]))
     = Inr (JObject [(''d0'', JString ''on'')])\<close>
    by (simp add: c_str_def NUL_def inplace_lib_def esp8266_lib_def decoder_defs)
  have h3: "applicable pinMap (as_JsonObject (JObject [(''d0'', JString ''on'')]))"
    by (simp add: applicable_def)
  obtain st' where r:
    \<open>callback inplace_lib pinMap control_topic ''{"d0":"on"}?'' 11 all_low
       = Inr (left_in_buffer inplace_lib pinMap ''{"d0":"on"}?'' 11 st', st')\<close>
    using callback_applicable [OF h1 h2 h3] by blast
  have b: \<open>left_in_buffer inplace_lib pinMap ''{"d0":"on"}?'' 11 st' =
     [CHR ''d'', CHR ''0'', NUL, CHR ''o'', CHR ''n'', NUL, CHR 0x22,
      CHR ''o'', CHR ''n'', CHR 0x22, CHR ''}'', NUL]\<close>
    unfolding left_in_buffer_def h2
    by (simp add: inplace_lib_def esp8266_lib_def decode_in_place_def NUL_def)
  show ?thesis
    using h1 r unfolding b by (simp add: NUL_def)
qed


subsection \<open>Value mapping\<close>

text \<open>
  For a pair whose value is a string the mapping is the stated one: the last pair that
  drives a channel's pin leaves it HIGH when its token equals \<open>on\<close>, letters compared
  without case, and LOW for any other token.
\<close>

lemma writes_last_matching:
  assumes "e \<in> set pm" "strcasecmp (name e) k = 0"
    and "\<forall>(k', v') \<in> set post. pin e \<notin> pin ` set (matching pm k')"
  shows "writes pm (pre @ (k, JString t) # post) (pin e) = Some (requested t)"
proof (induction pre)
  case Nil
  have "writes pm post (pin e) = None"
    using assms(3) by (rule writes_untouched)
  moreover have "pin e \<in> pin ` set (matching pm k)"
    using assms(1,2) by (simp add: matching_def)
  ultimately show ?case by simp
next
  case (Cons kv pre)
  obtain k0 v0 where "kv = (k0, v0)" by (cases kv)
  then show ?case using Cons.IH by simp
qed

lemma callback_value_mapping:
  assumes "len < length payload"
    and "deserializeJson lib (c_str (payload[len := NUL])) = Inr doc"
    and "applicable pm (as_JsonObject doc)"
    and "as_JsonObject doc = pre @ (k, JString t) # post"
    and "e \<in> set pm" "strcasecmp (name e) k = 0"
    and "\<forall>(k', v') \<in> set post. pin e \<notin> pin ` set (matching pm k')"
  shows "\<exists>st'. callback lib pm topic payload len st = Inr (left_in_buffer lib pm payload len st', st')
           \<and> digitalRead st' (pin e) = (if strcasecmp t ''on'' = 0 then HIGH else LOW)"
proof -
  obtain st' where r: "callback lib pm topic payload len st = Inr (left_in_buffer lib pm payload len st', st')"
    "gpio st' = override (gpio st) (writes pm (as_JsonObject doc))"
    using callback_applicable [OF assms(1,2,3)] by blast
  have "writes pm (as_JsonObject doc) (pin e) = Some (requested t)"
    unfolding assms(4) using assms(5,6,7) by (rule writes_last_matching)
  then have "digitalRead st' (pin e) = requested t"
    using r(2) by (simp add: digitalRead_def override_def)
  then show ?thesis using r(1) by (auto simp: requested_def)
qed

text \<open>
  C4 asks the same of every pair of a decoded command. A value that is not a string
  breaks it: \<open>as<const char*>()\<close> yields the null pointer, the key selects \<open>d1\<close>, and
  \<open>strcasecmp\<close> reads through the pointer instead of \<open>d1\<close> being driven LOW. The
  message \<open>{"d1":false}\<close>, received in a buffer with one spare byte:
\<close>

theorem callback_non_string_value_faults:
  \<open>deserializeJson esp8266_lib (c_str (''{"d1":false}?''[12 := NUL]))
     = Inr (JObject [(''d1'', JBool False)]) \<and>
   callback esp8266_lib pinMap control_topic ''{"d1":false}?'' 12 all_high = Inl Null_pointer_read\<close>
  by (simp add: callback_def Let_def c_str_def NUL_def esp8266_lib_def decoder_defs pinMap_def
      tolower_def)

subsection \<open>One publish per command\<close>

text \<open>
  For an applicable command the handler returns, and the trace gains serial output
  followed by exactly one publish, whose payload is built from the pins as all the
  pairs have left them.
\<close>

lemma callback_publishes_once:
  assumes "len < length payload"
    and "deserializeJson lib (c_str (payload[len := NUL])) = Inr doc"
    and "applicable pm (as_JsonObject doc)"
  shows "\<exists>st' logs. callback lib pm topic payload len st = Inr (left_in_buffer lib pm payload len st', st')
           \<and> gpio st' = override (gpio st) (writes pm (as_JsonObject doc))
           \<and> list_all is_serial logs
           \<and> trace st' = trace st @ logs @
                [MQTT_publish state_topic (serializeJson lib (build_doc lib pm st') 256) True,
                 Serial_write ''Published state: '',
                 Serial_write (serializeJson lib (build_doc lib pm st') 256 @ [CHR 0x0D, CHR 0x0A])]"
proof -
  define st1 where "st1 = Serial_println (c_str (payload[len := NUL]))
                    (Serial_print '']: ''
                      (Serial_print topic
                        (Serial_print ''Message arrived ['' st)))"
  obtain st2 logs where a: "apply_pairs pm (as_JsonObject doc) st1 = Inr st2"
     "gpio st2 = override (gpio st1) (writes pm (as_JsonObject doc))"
     "trace st2 = trace st1 @ logs" "list_all is_serial logs"
    using apply_pairs_applicable [OF assms(3), of st1] by blast
  define logs' where "logs' = [Serial_write ''Message arrived ['', Serial_write topic,
     Serial_write '']: '', Serial_write (c_str (payload[len := NUL]) @ [CHR 0x0D, CHR 0x0A])] @ logs"
  have cb: "callback lib pm topic payload len st =
      Inr (left_in_buffer lib pm payload len (publish_state lib pm st2), publish_state lib pm st2)"
    using assms(1,2) a(1) by (simp add: callback_def Let_def st1_def left_in_buffer_def)
  have bd: "build_doc lib pm (publish_state lib pm st2) = build_doc lib pm st2"
    by (rule build_doc_cong) simp
  have t: "trace st2 = trace st @ logs'"
    using a(3) by (simp add: st1_def logs'_def)
  have l: "list_all is_serial logs'"
    using a(4) by (simp add: logs'_def)
  have g: "gpio (publish_state lib pm st2) = override (gpio st) (writes pm (as_JsonObject doc))"
    using a(2) by (simp add: st1_def)
  have "trace (publish_state lib pm st2) = trace st @ logs' @
                [MQTT_publish state_topic (serializeJson lib (build_doc lib pm (publish_state lib pm st2)) 256) True,
                 Serial_write ''Published state: '',
                 Serial_write (serializeJson lib (build_doc lib pm (publish_state lib pm st2)) 256 @ [CHR 0x0D, CHR 0x0A])]"
    unfolding bd trace_publish_state t by simp
  then show ?thesis using cb g l by blast
qed

text \<open>
  C7 asks for that publish after every decoded command. The null pointer read of C4
  prevents it: for \<open>{"d0":"on","d1":1}\<close> the first pair is applied, the second stops
  the handler, and \<open>publish_state\<close> is never reached.
\<close>

theorem callback_fault_skips_publish:
  \<open>deserializeJson esp8266_lib (c_str (''{"d0":"on","d1":1}?''[18 := NUL]))
     = Inr (JObject [(''d0'', JString ''on''), (''d1'', JInteger 1)]) \<and>
   callback esp8266_lib pinMap control_topic ''{"d0":"on","d1":1}?'' 18 all_low
     = Inl Null_pointer_read\<close>
  by (simp add: callback_def Let_def c_str_def NUL_def esp8266_lib_def decoder_defs pinMap_def
      tolower_def)

subsection \<open>Unknown keys\<close>

text \<open>
  C5. A pair whose key selects no table entry does nothing at all: the inner loop
  returns the state it was given (no pin, no event, whatever the value is), so the
  command has the outcome it has without that pair. In particular, where the other
  pairs are applicable the handler returns, the pins are as those pairs leave them and
  the one publish is made. And for a table with distinct pins, a channel whose name no
  key of the command equals, letters compared without case, reads after the handler
  what it read before.
\<close>

theorem unmatched_key_is_noop:
  assumes "matching pm k = []"
  shows "set_matching pm k (as_c_str v) st = Inr st
    \<and> apply_pairs pm (pre @ (k, v) # post) st = apply_pairs pm (pre @ post) st
    \<and> (len < length payload
         \<and> deserializeJson lib (c_str (payload[len := NUL])) = Inr (JObject (pre @ (k, v) # post))
         \<and> applicable pm (pre @ post) \<longrightarrow>
         (\<exists>st'. callback lib pm topic payload len st = Inr (left_in_buffer lib pm payload len st', st')
            \<and> gpio st' = override (gpio st) (writes pm (pre @ post))
            \<and> published st' = published st @
                 [MQTT_publish state_topic (serializeJson lib (build_doc lib pm st') 256) True]))
    \<and> (\<forall>e doc buf st'.
          distinct (map pin pm) \<and> e \<in> set pm
          \<and> deserializeJson lib (c_str (payload[len := NUL])) = Inr doc
          \<and> (\<forall>(k', v') \<in> set (as_JsonObject doc). strcasecmp (name e) k' \<noteq> 0)
          \<and> callback lib pm topic payload len st = Inr (buf, st') \<longrightarrow>
          digitalRead st' (pin e) = digitalRead st (pin e))"
proof (intro conjI allI impI)
  show "set_matching pm k (as_c_str v) st = Inr st"
    using assms by (rule set_matching_unmatched)
  show "apply_pairs pm (pre @ (k, v) # post) st = apply_pairs pm (pre @ post) st"
    using assms by (rule apply_pairs_drop_unmatched)
next
  assume a: "len < length payload
         \<and> deserializeJson lib (c_str (payload[len := NUL])) = Inr (JObject (pre @ (k, v) # post))
         \<and> applicable pm (pre @ post)"
  have ap: "applicable pm (as_JsonObject (JObject (pre @ (k, v) # post)))"
    using a assms by (simp add: applicable_def)
  have w: "writes pm (as_JsonObject (JObject (pre @ (k, v) # post))) = writes pm (pre @ post)"
    using assms by (simp add: writes_drop_unmatched)
  show "\<exists>st'. callback lib pm topic payload len st = Inr (left_in_buffer lib pm payload len st', st')
            \<and> gpio st' = override (gpio st) (writes pm (pre @ post))
            \<and> published st' = published st @
                 [MQTT_publish state_topic (serializeJson lib (build_doc lib pm st') 256) True]"
    using callback_applicable [OF _ _ ap, of len payload lib topic st] a unfolding w by blast
next
  fix e doc buf st'
  assume a: "distinct (map pin pm) \<and> e \<in> set pm
          \<and> deserializeJson lib (c_str (payload[len := NUL])) = Inr doc
          \<and> (\<forall>(k', v') \<in> set (as_JsonObject doc). strcasecmp (name e) k' \<noteq> 0)
          \<and> callback lib pm topic payload len st = Inr (buf, st')"
  then have lt: "len < length payload"
    by (auto simp: callback_def split: if_splits)
  have ap: "applicable pm (as_JsonObject doc)"
    using a lt callback_not_applicable [of len payload lib doc pm topic st] by auto
  obtain st'' where r: "callback lib pm topic payload len st = Inr (left_in_buffer lib pm payload len st'', st'')"
    "gpio st'' = override (gpio st) (writes pm (as_JsonObject doc))"
    using callback_applicable [OF lt _ ap, of lib topic st] a by blast
  then have eq: "st'' = st'" using a by simp
  have "\<forall>(k', v') \<in> set (as_JsonObject doc). pin e \<notin> pin ` set (matching pm k')"
    using a pin_matching_distinct [of pm e] by blast
  then have "writes pm (as_JsonObject doc) (pin e) = None"
    by (rule writes_untouched)
  then show "digitalRead st' (pin e) = digitalRead st (pin e)"
    using r(2) eq by (simp add: digitalRead_def override_def)
qed

theorem unmatched_key_is_noop_witness:
  \<open>matching pinMap ''bogus'' = [] \<and>
   24 < length ''{"d0":"on","bogus":"on"}?'' \<and>
   deserializeJson esp8266_lib (c_str (''{"d0":"on","bogus":"on"}?''[24 := NUL]))
     = Inr (JObject ([(''d0'', JString ''on'')] @ (''bogus'', JString ''on'') # [])) \<and>
   applicable pinMap ([(''d0'', JString ''on'')] @ []) \<and>
   distinct (map pin pinMap) \<and> \<lparr>name = ''d1'', pin = 5\<rparr> \<in> set pinMap \<and>
   strcasecmp ''d1'' ''d0'' \<noteq> 0 \<and> strcasecmp ''d1'' ''bogus'' \<noteq> 0 \<and>
   (\<exists>st'. callback esp8266_lib pinMap control_topic ''{"d0":"on","bogus":"on"}?'' 24 all_low
             = Inr (''{"d0":"on","bogus":"on"}?''[24 := NUL], st')
      \<and> digitalRead st' 16 = HIGH
      \<and> digitalRead st' 5 = digitalRead all_low 5
      \<and> published st' =
          [MQTT_publish state_topic
             ''{"d0":"on","d1":"off","d2":"off","d3":"off","d4":"off","d5":"off","d6":"off","d7":"off","d8":"off"}''
             True])\<close>
proof -
  have h1: "matching pinMap ''bogus'' = []"
    by (simp add: matching_def pinMap_def tolower_def)
  have h2: \<open>24 < length ''{"d0":"on","bogus":"on"}?''\<close> by simp
  have h3: \<open>deserializeJson esp8266_lib (c_str (''{"d0":"on","bogus":"on"}?''[24 := NUL]))
     = Inr (JObject ([(''d0'', JString ''on'')] @ (''bogus'', JString ''on'') # []))\<close>
    by (simp add: c_str_def NUL_def esp8266_lib_def decoder_defs)
  have h4: "applicable pinMap ([(''d0'', JString ''on'')] @ [])"
    by (simp add: applicable_def)
  have h5: "distinct (map pin pinMap)" "\<lparr>name = ''d1'', pin = 5\<rparr> \<in> set pinMap"
    by (simp_all add: pinMap_def)
  have h6: "strcasecmp ''d1'' ''d0'' \<noteq> 0" "strcasecmp ''d1'' ''bogus'' \<noteq> 0"
    by (simp_all add: tolower_def)
  have h7: "\<forall>(k', v') \<in> set (as_JsonObject
                (JObject ([(''d0'', JString ''on'')] @ (''bogus'', JString ''on'') # []))).
              strcasecmp (name \<lparr>name = ''d1'', pin = 5\<rparr>) k' \<noteq> 0"
    using h6 by simp
  note t = unmatched_key_is_noop [OF h1, of "JString ''on''" all_low "[(''d0'', JString ''on'')]" "[]"
        24 \<open>''{"d0":"on","bogus":"on"}?''\<close> esp8266_lib control_topic]
  obtain st' where r:
    \<open>callback esp8266_lib pinMap control_topic ''{"d0":"on","bogus":"on"}?'' 24 all_low
             = Inr (''{"d0":"on","bogus":"on"}?''[24 := NUL], st')\<close>
    "gpio st' = override (gpio all_low) (writes pinMap ([(''d0'', JString ''on'')] @ []))"
    "published st' = published all_low @
       [MQTT_publish state_topic (serializeJson esp8266_lib (build_doc esp8266_lib pinMap st') 256) True]"
    using t h2 h3 h4 unfolding left_in_buffer_esp8266 by blast
  have fr: "digitalRead st' (pin \<lparr>name = ''d1'', pin = 5\<rparr>)
              = digitalRead all_low (pin \<lparr>name = ''d1'', pin = 5\<rparr>)"
    using t h5 h3 h7 r(1) by blast
  have g: "gpio st' = (\<lambda>q. if q = 16 then HIGH else LOW)"
    unfolding r(2)
    by (simp add: override_def fun_eq_iff matching_def pinMap_def tolower_def requested_def all_low_def)
  have b: \<open>render (build_doc esp8266_lib pinMap st') =
     ''{"d0":"on","d1":"off","d2":"off","d3":"off","d4":"off","d5":"off","d6":"off","d7":"off","d8":"off"}''\<close>
    by (simp add: build_doc_distinct [OF distinct_names_pinMap])
      (simp add: pinMap_def snapshot_def render_def quoted_def escape_char_def state_token_def
        digitalRead_def g esp8266_lib_def)
  have s: "serializeJson esp8266_lib (build_doc esp8266_lib pinMap st') 256
          = render (build_doc esp8266_lib pinMap st')"
    by (simp add: serializeJson_def render_pinMap_fits)
  have p: \<open>published st' =
          [MQTT_publish state_topic
             ''{"d0":"on","d1":"off","d2":"off","d3":"off","d4":"off","d5":"off","d6":"off","d7":"off","d8":"off"}''
             True]\<close>
    using r(3) unfolding s b by (simp add: published_def all_low_def)
  have hi: "digitalRead st' 16 = HIGH"
    by (simp add: digitalRead_def g)
  show ?thesis
    using h1 h2 h3 h4 h5 h6 r(1) fr p hi by (intro conjI exI [of _ st']) simp_all
qed

subsection \<open>Idempotence\<close>

text \<open>
  C8. If handling a message returns, handling the same message body again (in any
  buffer with room for the terminator) returns too, leaves every pin as the first
  handling left it, and publishes what the first handling published: nothing for a
  text the decoder rejects, and otherwise the snapshot of the state the first
  handling left.
\<close>

theorem callback_idempotent:
  assumes "callback lib pm topic payload len st = Inr (buf, st1)"
    and "len < length payload'"
    and "take len payload' = take len payload"
  shows "\<exists>st2 new. callback lib pm topic payload' len st1 = Inr (left_in_buffer lib pm payload' len st2, st2)
          \<and> gpio st2 = gpio st1
          \<and> published st1 = published st @ new
          \<and> published st2 = published st1 @ new
          \<and> (case deserializeJson lib (c_str (payload[len := NUL])) of
                Inl err \<Rightarrow> new = []
              | Inr doc \<Rightarrow> new = [MQTT_publish state_topic
                                    (serializeJson lib (build_doc lib pm st1) 256) True])"
proof -
  have lt: "len < length payload"
    using assms(1) by (auto simp: callback_def split: if_splits)
  have same: "c_str (payload'[len := NUL]) = c_str (payload[len := NUL])"
    using lt assms(2,3) by (simp add: c_str_terminated)
  show ?thesis
  proof (cases "deserializeJson lib (c_str (payload[len := NUL]))")
    case (Inl err)
    obtain s1 where 1: "callback lib pm topic payload len st = Inr (left_in_buffer lib pm payload len s1, s1)"
      "gpio s1 = gpio st" "published s1 = published st"
      using callback_decode_error [OF lt Inl] by blast
    have e1: "s1 = st1" using 1(1) assms(1) by simp
    obtain s2 where 2: "callback lib pm topic payload' len st1 = Inr (left_in_buffer lib pm payload' len s2, s2)"
      "gpio s2 = gpio st1" "published s2 = published st1"
      using callback_decode_error [OF assms(2), of lib err pm topic st1] Inl same by auto
    show ?thesis
      using 1 2 e1 Inl by (intro exI [of _ s2] exI [of _ "[]"]) simp
  next
    case (Inr doc)
    have ap: "applicable pm (as_JsonObject doc)"
      using assms(1) lt Inr callback_not_applicable [of len payload lib doc pm topic st] by auto
    obtain s1 where 1: "callback lib pm topic payload len st = Inr (left_in_buffer lib pm payload len s1, s1)"
      "gpio s1 = override (gpio st) (writes pm (as_JsonObject doc))"
      "published s1 = published st @
                [MQTT_publish state_topic (serializeJson lib (build_doc lib pm s1) 256) True]"
      using callback_applicable [OF lt Inr ap] by blast
    have e1: "s1 = st1" using 1(1) assms(1) by simp
    have d2: "deserializeJson lib (c_str (payload'[len := NUL])) = Inr doc"
      using Inr same by simp
    obtain s2 where 2: "callback lib pm topic payload' len st1 = Inr (left_in_buffer lib pm payload' len s2, s2)"
      "gpio s2 = override (gpio st1) (writes pm (as_JsonObject doc))"
      "published s2 = published st1 @
                [MQTT_publish state_topic (serializeJson lib (build_doc lib pm s2) 256) True]"
      using callback_applicable [OF assms(2) d2 ap] by blast
    have g: "gpio s2 = gpio st1"
      using 1(2) 2(2) e1 by (simp add: override_idem)
    then have bd: "build_doc lib pm s2 = build_doc lib pm st1"
      by (rule build_doc_cong)
    show ?thesis
      using 1(3) 2(1,3) e1 g bd Inr
      by (intro exI [of _ s2]
          exI [of _ "[MQTT_publish state_topic (serializeJson lib (build_doc lib pm st1) 256) True]"])
        simp
  qed
qed

theorem callback_idempotent_witness:
  \<open>24 < length ''{"D1":"maybe","d2":"ON"}?'' \<and>
   (\<exists>st1 st2.
      callback esp8266_lib pinMap control_topic ''{"D1":"maybe","d2":"ON"}?'' 24 all_high
        = Inr (''{"D1":"maybe","d2":"ON"}?''[24 := NUL], st1) \<and>
      callback esp8266_lib pinMap control_topic ''{"D1":"maybe","d2":"ON"}?'' 24 st1
        = Inr (''{"D1":"maybe","d2":"ON"}?''[24 := NUL], st2) \<and>
      digitalRead st1 5 = LOW \<and> digitalRead st1 4 = HIGH \<and> gpio st2 = gpio st1 \<and>
      published st1 =
        [MQTT_publish state_topic
           ''{"d0":"on","d1":"off","d2":"on","d3":"on","d4":"on","d5":"on","d6":"on","d7":"on","d8":"on"}''
           True] \<and>
      published st2 =
        [MQTT_publish state_topic
           ''{"d0":"on","d1":"off","d2":"on","d3":"on","d4":"on","d5":"on","d6":"on","d7":"on","d8":"on"}''
           True,
         MQTT_publish state_topic
           ''{"d0":"on","d1":"off","d2":"on","d3":"on","d4":"on","d5":"on","d6":"on","d7":"on","d8":"on"}''
           True])\<close>
proof -
  have h1: \<open>24 < length ''{"D1":"maybe","d2":"ON"}?''\<close> by simp
  have h2: \<open>deserializeJson esp8266_lib (c_str (''{"D1":"maybe","d2":"ON"}?''[24 := NUL]))
     = Inr (JObject [(''D1'', JString ''maybe''), (''d2'', JString ''ON'')])\<close>
    by (simp add: c_str_def NUL_def esp8266_lib_def decoder_defs)
  have h3: "applicable pinMap (as_JsonObject (JObject [(''D1'', JString ''maybe''), (''d2'', JString ''ON'')]))"
    by (simp add: applicable_def)
  obtain st1 where r1:
    \<open>callback esp8266_lib pinMap control_topic ''{"D1":"maybe","d2":"ON"}?'' 24 all_high
        = Inr (''{"D1":"maybe","d2":"ON"}?''[24 := NUL], st1)\<close>
    "gpio st1 = override (gpio all_high)
       (writes pinMap (as_JsonObject (JObject [(''D1'', JString ''maybe''), (''d2'', JString ''ON'')])))"
    using callback_applicable [OF h1 h2 h3] unfolding left_in_buffer_esp8266 by blast
  obtain st2 new where r2:
    \<open>callback esp8266_lib pinMap control_topic ''{"D1":"maybe","d2":"ON"}?'' 24 st1
        = Inr (''{"D1":"maybe","d2":"ON"}?''[24 := NUL], st2)\<close>
    "gpio st2 = gpio st1"
    "published st1 = published all_high @ new"
    "published st2 = published st1 @ new"
    \<open>case deserializeJson esp8266_lib (c_str (''{"D1":"maybe","d2":"ON"}?''[24 := NUL])) of
                Inl err \<Rightarrow> new = []
              | Inr doc \<Rightarrow> new = [MQTT_publish state_topic
                                    (serializeJson esp8266_lib (build_doc esp8266_lib pinMap st1) 256) True]\<close>
    using callback_idempotent [OF r1(1) h1 refl] unfolding left_in_buffer_esp8266 by blast
  have g: "gpio st1 = (\<lambda>q. if q = 5 then LOW else HIGH)"
    unfolding r1(2)
    by (simp add: override_def fun_eq_iff matching_def pinMap_def tolower_def requested_def all_high_def)
  have b: \<open>render (build_doc esp8266_lib pinMap st1) =
     ''{"d0":"on","d1":"off","d2":"on","d3":"on","d4":"on","d5":"on","d6":"on","d7":"on","d8":"on"}''\<close>
    by (simp add: build_doc_distinct [OF distinct_names_pinMap])
      (simp add: pinMap_def snapshot_def render_def quoted_def escape_char_def state_token_def
        digitalRead_def g esp8266_lib_def)
  have s: "serializeJson esp8266_lib (build_doc esp8266_lib pinMap st1) 256
          = render (build_doc esp8266_lib pinMap st1)"
    by (simp add: serializeJson_def render_pinMap_fits)
  have n: "new = [MQTT_publish state_topic (render (build_doc esp8266_lib pinMap st1)) True]"
    using r2(5) unfolding h2 s by simp
  have p0: "published all_high = []"
    by (simp add: published_def all_high_def)
  show ?thesis
    using h1 r1(1) r2(1,2,3,4) g
    unfolding n b p0
    by (intro conjI exI [of _ st1] exI [of _ st2]) (simp_all add: digitalRead_def)
qed

subsection \<open>Reconnection\<close>

text \<open>
  C9. From a disconnected state, if the broker refuses the next \<open>k\<close> attempts and
  accepts the one after, \<open>reconnect\<close> returns connected, with the pins untouched, and
  its calls to the client and to \<open>delay\<close> are, in this order: \<open>k\<close> times a connect
  followed by a delay of 5000 ms (the 5 seconds of the log line), then the accepted
  connect, one subscribe to the control topic and one publish of the current snapshot.
  This holds for every \<open>k\<close>, with the same delay each time. Where the broker refuses
  every attempt the loop never returns.
\<close>

theorem reconnect_announces_once:
  "(\<not> connected st \<and> (\<forall>j<k. \<exists>rc. broker (attempts st + j) = Refused rc)
      \<and> broker (attempts st + k) = Accepted \<longrightarrow>
      (\<exists>st'. reconnect broker lib pm st = Some st' \<and> connected st' \<and> gpio st' = gpio st
         \<and> network st' = network st @
              concat (replicate k [MQTT_connect ''ESP8266ApplianceClient'' mqtt_user mqtt_pass,
                                   Delay 5000]) @
              [MQTT_connect ''ESP8266ApplianceClient'' mqtt_user mqtt_pass,
               MQTT_subscribe control_topic,
               MQTT_publish state_topic (serializeJson lib (build_doc lib pm st) 256) True]))
   \<and> (\<not> connected st \<and> (\<forall>i. \<exists>rc. broker i = Refused rc) \<longrightarrow>
        reconnect broker lib pm st = None)"
proof (intro conjI impI)
  assume "\<not> connected st \<and> (\<forall>j<k. \<exists>rc. broker (attempts st + j) = Refused rc)
      \<and> broker (attempts st + k) = Accepted"
  then show "\<exists>st'. reconnect broker lib pm st = Some st' \<and> connected st' \<and> gpio st' = gpio st
         \<and> network st' = network st @
              concat (replicate k [MQTT_connect ''ESP8266ApplianceClient'' mqtt_user mqtt_pass,
                                   Delay 5000]) @
              [MQTT_connect ''ESP8266ApplianceClient'' mqtt_user mqtt_pass,
               MQTT_subscribe control_topic,
               MQTT_publish state_topic (serializeJson lib (build_doc lib pm st) 256) True]"
    using reconnect_retries [of st k broker lib pm] by blast
next
  assume a: "\<not> connected st \<and> (\<forall>i. \<exists>rc. broker i = Refused rc)"
  show "reconnect broker lib pm st = None"
  proof (cases "reconnect broker lib pm st")
    case None
    then show ?thesis .
  next
    case (Some st')
    then have "connected st \<or> (\<exists>i. broker i = Accepted)"
      by (rule reconnect_returns_only_after_accept)
    then show ?thesis using a by (metis attempt.distinct(1))
  qed
qed

theorem reconnect_announces_once_witness:
  \<open>\<not> connected all_high \<and> third_time_lucky 0 = Refused (- 2) \<and> third_time_lucky 1 = Refused (- 2) \<and>
   third_time_lucky 2 = Accepted \<and>
   (\<exists>st'. reconnect third_time_lucky esp8266_lib pinMap all_high = Some st' \<and> connected st' \<and>
      gpio st' = gpio all_high \<and>
      network st' =
        [MQTT_connect ''ESP8266ApplianceClient'' mqtt_user mqtt_pass, Delay 5000,
         MQTT_connect ''ESP8266ApplianceClient'' mqtt_user mqtt_pass, Delay 5000,
         MQTT_connect ''ESP8266ApplianceClient'' mqtt_user mqtt_pass,
         MQTT_subscribe control_topic,
         MQTT_publish state_topic
           ''{"d0":"on","d1":"on","d2":"on","d3":"on","d4":"on","d5":"on","d6":"on","d7":"on","d8":"on"}''
           True]) \<and>
   reconnect (\<lambda>i. Refused (- 2)) esp8266_lib pinMap all_high = None\<close>
proof -
  have h1: "\<not> connected all_high" by (simp add: all_high_def)
  have h2: "\<forall>j<2. \<exists>rc. third_time_lucky (attempts all_high + j) = Refused rc"
    by (simp add: third_time_lucky_def all_high_def)
  have h3: "third_time_lucky (attempts all_high + 2) = Accepted"
    by (simp add: third_time_lucky_def all_high_def)
  have h4: "\<forall>i. \<exists>rc. (\<lambda>i. Refused (- 2)) i = Refused rc"
    by simp
  have r: \<open>render (build_doc esp8266_lib pinMap all_high) =
     ''{"d0":"on","d1":"on","d2":"on","d3":"on","d4":"on","d5":"on","d6":"on","d7":"on","d8":"on"}''\<close>
    by (simp add: build_doc_distinct [OF distinct_names_pinMap])
      (simp add: pinMap_def snapshot_def render_def quoted_def escape_char_def state_token_def
        digitalRead_def all_high_def esp8266_lib_def)
  have s: "serializeJson esp8266_lib (build_doc esp8266_lib pinMap all_high) 256
          = render (build_doc esp8266_lib pinMap all_high)"
    by (simp add: serializeJson_def render_pinMap_fits)
  have n0: "network all_high = []"
    by (simp add: network_def all_high_def)
  have "\<exists>st'. reconnect third_time_lucky esp8266_lib pinMap all_high = Some st' \<and> connected st'
         \<and> gpio st' = gpio all_high
         \<and> network st' = network all_high @
              concat (replicate 2 [MQTT_connect ''ESP8266ApplianceClient'' mqtt_user mqtt_pass,
                                   Delay 5000]) @
              [MQTT_connect ''ESP8266ApplianceClient'' mqtt_user mqtt_pass,
               MQTT_subscribe control_topic,
               MQTT_publish state_topic
                 (serializeJson esp8266_lib (build_doc esp8266_lib pinMap all_high) 256) True]"
    using reconnect_announces_once [of all_high 2 third_time_lucky esp8266_lib pinMap] h1 h2 h3
    by blast
  moreover have "reconnect (\<lambda>i. Refused (- 2)) esp8266_lib pinMap all_high = None"
    using reconnect_announces_once [of all_high 0 "\<lambda>i. Refused (- 2)" esp8266_lib pinMap] h1 h4
    by blast
  ultimately show ?thesis
    unfolding s r n0 using h1
    by (simp add: third_time_lucky_def numeral_2_eq_2)
qed

end
